(* ===== verification/Prelude.thy ===== *)
theory Prelude
  imports Main
begin

text \<open>
  Shared vocabulary of the snake development: the types of grid cells and
  directions, the Python exceptions the program can raise, the result type of
  an operation that may raise or run forever, and the generic lemmas on lists
  and integer remainders that the component theories share.
\<close>

section \<open>Types of the model\<close>

text \<open>A cell \<open>(x, y)\<close> and a direction \<open>(dx, dy)\<close> are pairs of Python ints.\<close>

type_synonym cell = "int \<times> int"
type_synonym direction = "int \<times> int"

text \<open>The exceptions that the source can raise on some input.\<close>

datatype error = KeyError | IndexError | ValueError | ZeroDivisionError

text \<open>
  The result of running a piece of the program: \<open>None\<close> when it never returns
  (the food loop on a full board), \<open>Some (Inl e)\<close> when it raises \<open>e\<close>,
  \<open>Some (Inr v)\<close> when it returns \<open>v\<close>.
\<close>

type_synonym 'a outcome = "(error + 'a) option"

named_theorems snake_simps "evaluation rules of the snake model"

section \<open>Python primitives\<close>

text \<open>\<open>xs[-1]\<close> on a deque: \<open>IndexError\<close> when it is empty.\<close>

definition py_last :: "'a list \<Rightarrow> error + 'a" where
  "py_last xs = (if xs = [] then Inl IndexError else Inr (last xs))"

text \<open>\<open>a % b\<close> on ints: floor remainder, as \<open>mod\<close> on \<open>int\<close>; \<open>ZeroDivisionError\<close> for \<open>b = 0\<close>.\<close>

definition py_mod :: "int \<Rightarrow> int \<Rightarrow> error + int" where
  "py_mod a b = (if b = 0 then Inl ZeroDivisionError else Inr (a mod b))"

section \<open>Generic lemmas\<close>

lemma py_last_nonempty [simp, snake_simps]:
  "xs \<noteq> [] \<Longrightarrow> py_last xs = Inr (last xs)"
  by (simp add: py_last_def)

lemma py_last_snoc [simp, snake_simps]: "py_last (xs @ [x]) = Inr x"
  by (simp add: py_last_def)

lemma py_mod_pos [simp, snake_simps]: "0 < b \<Longrightarrow> py_mod a b = Inr (a mod b)"
  by (simp add: py_mod_def)

lemma py_mod_zero [simp, snake_simps]: "py_mod a 0 = Inl ZeroDivisionError"
  by (simp add: py_mod_def)

lemma mod_in_range [simp]: "0 < (b::int) \<Longrightarrow> 0 \<le> a mod b \<and> a mod b < b"
  by simp

text \<open>
  Shifting a residue by a non-zero offset shorter than the modulus changes it: the
  arithmetic fact behind "a step never returns to the cell it came from".
\<close>

lemma mod_shift_ne:
  fixes n v w :: int
  assumes "v \<noteq> 0" and "\<bar>v\<bar> < w"
  shows "(n + v) mod w \<noteq> n mod w"
proof
  assume "(n + v) mod w = n mod w"
  then have "w dvd v"
    by (metis add_diff_cancel_left' mod_eq_dvd_iff)
  with assms(1) have "\<bar>w\<bar> \<le> \<bar>v\<bar>"
    by (simp add: dvd_imp_le_int)
  with assms(2) show False by linarith
qed

lemma distinct_snoc_tl:
  "distinct xs \<Longrightarrow> x \<notin> set xs \<Longrightarrow> distinct (tl (xs @ [x]))"
  by (simp add: distinct_tl)

lemma in_set_tlD: "x \<in> set (tl xs) \<Longrightarrow> x \<in> set xs"
  by (cases xs) auto

lemma set_tl_snoc_subset: "set (tl (xs @ [x])) \<subseteq> insert x (set xs)"
  by (cases xs) auto

lemma last_butlast_snoc_tl:
  "2 \<le> length xs \<Longrightarrow> last (butlast (tl (xs @ [x]))) = last xs"
  by (cases xs) (auto simp: butlast_append)

lemma tl_snoc_Nil_iff [simp]: "tl (xs @ [x]) = [] \<longleftrightarrow> xs = []"
  by (cases xs) auto

lemma last_tl_snoc [simp]: "xs \<noteq> [] \<Longrightarrow> last (tl (xs @ [x])) = x"
  by (cases xs) auto

lemma length_tl_snoc [simp]: "length (tl (xs @ [x])) = length xs"
  by simp


text \<open>The interval of multiples of \<open>sc\<close> a number lies in is given by \<open>div\<close>.\<close>

lemma div_cell_iff: "(0::int) < sc \<Longrightarrow> (x * sc \<le> p \<and> p < (x + 1) * sc) \<longleftrightarrow> p div sc = x"
proof
  assume "0 < sc" "x * sc \<le> p \<and> p < (x + 1) * sc"
  then show "p div sc = x"
    by (intro int_div_pos_eq [where r = "p - x * sc"]) (simp_all add: algebra_simps)
next
  assume "0 < sc" "p div sc = x"
  then show "x * sc \<le> p \<and> p < (x + 1) * sc"
    by (metis add.commute distrib_right div_mult_mod_eq mult.commute mult_1 pos_mod_bound pos_mod_sign
        add_less_cancel_left le_add_same_cancel1)
qed

lemma filter_eq_single: "distinct xs \<Longrightarrow> x \<in> set xs \<Longrightarrow> filter (\<lambda>y. y = x) xs = [x]"
  by (induction xs) (auto simp: filter_empty_conv)


lemma div_in_range:
  assumes "(0::int) < sc" "0 \<le> p" "p < w * sc"
  shows "0 \<le> p div sc \<and> p div sc < w"
proof -
  have "p div sc * sc \<le> p" using div_cell_iff [OF assms(1), of "p div sc" p] by simp
  with assms(3) have "p div sc * sc < w * sc" by linarith
  with assms(1,2) show ?thesis by (simp add: pos_imp_zdiv_nonneg_iff)
qed


lemma find_map: "find P (map f xs) = map_option f (find (P \<circ> f) xs)"
  by (induction xs) auto


lemma half_in_range: "0 < (a::int) \<Longrightarrow> 0 \<le> a div 2 \<and> a div 2 < a"
  by presburger

end
