(* ===== verification/Grid.thy ===== *)
theory Grid
  imports Prelude
begin

text \<open>
  Grid geometry of \<^verbatim>\<open>src/snake.py\<close>: the table \<open>binding2direction\<close> from key
  names to unit steps, the "opposite direction" of \<open>on_key\<close>, and the
  wrap-around step of \<open>move\<close> (\<open>x = (last_x + dx) % self.width\<close>). The
  abstract wrap-around of the specification is \<open>wrap\<close>; \<open>step_cell\<close> is the code's
  computation, which raises \<open>ZeroDivisionError\<close> on an empty axis and otherwise
  refines \<open>wrap\<close>.
\<close>

section \<open>Directions\<close>

text \<open>The module-level dict, in insertion order (which \<open>main\<close> iterates).\<close>

definition binding2direction_list :: "(string \<times> direction) list" where
  "binding2direction_list =
     [(''Up'', (0, -1)), (''Down'', (0, 1)), (''Left'', (-1, 0)), (''Right'', (1, 0))]"

definition binding2direction :: "string \<rightharpoonup> direction" where
  "binding2direction = map_of binding2direction_list"

text \<open>\<open>opposite = (-self.previous_direction[0], -self.previous_direction[1])\<close>\<close>

definition opposite :: "direction \<Rightarrow> direction" where
  "opposite d = (- fst d, - snd d)"

text \<open>The directions the table can produce.\<close>

definition dir_ok :: "direction \<Rightarrow> bool" where
  "dir_ok d \<longleftrightarrow> d \<in> set (map snd binding2direction_list)"

section \<open>Cells and the wrap-around step\<close>

definition in_grid :: "int \<Rightarrow> int \<Rightarrow> cell \<Rightarrow> bool" where
  "in_grid w h c \<longleftrightarrow> 0 \<le> fst c \<and> fst c < w \<and> 0 \<le> snd c \<and> snd c < h"

text \<open>The specification's \<open>wrap(cell + delta)\<close> (section 4.1 of the spec).\<close>

definition wrap :: "int \<Rightarrow> int \<Rightarrow> cell \<Rightarrow> direction \<Rightarrow> cell" where
  "wrap w h c d = ((fst c + fst d) mod w, (snd c + snd d) mod h)"

text \<open>The code's step, with the two \<open>%\<close> evaluated left to right.\<close>

definition step_cell :: "int \<Rightarrow> int \<Rightarrow> cell \<Rightarrow> direction \<Rightarrow> error + cell" where
  "step_cell w h c d =
     (case py_mod (fst c + fst d) w of
        Inl e \<Rightarrow> Inl e
      | Inr x \<Rightarrow> (case py_mod (snd c + snd d) h of
                   Inl e \<Rightarrow> Inl e
                 | Inr y \<Rightarrow> Inr (x, y)))"

text \<open>
  The cells of the board in the order of the constructor's loop
  \<open>for x in range(width): for y in range(height)\<close>, which fills \<open>item_ids\<close>.
\<close>

definition grid_cells :: "int \<Rightarrow> int \<Rightarrow> cell list" where
  "grid_cells w h = concat (map (\<lambda>x. map (\<lambda>y. (x, y)) [0..h - 1]) [0..w - 1])"

section \<open>Lemmas\<close>

lemma set_grid_cells: "set (grid_cells w h) = {c. in_grid w h c}"
  by (auto simp: grid_cells_def in_grid_def)

lemma grid_cells_product: "grid_cells w h = List.product [0..w - 1] [0..h - 1]"
  by (simp add: grid_cells_def product_concat_map)

lemma distinct_grid_cells: "distinct (grid_cells w h)"
  by (simp add: grid_cells_product distinct_product)

lemma length_grid_cells: "length (grid_cells w h) = nat w * nat h"
  by (simp add: grid_cells_product)

lemma dir_ok_iff: "dir_ok d \<longleftrightarrow> d = (0, -1) \<or> d = (0, 1) \<or> d = (-1, 0) \<or> d = (1, 0)"
  by (auto simp: dir_ok_def binding2direction_list_def)

lemma binding2direction_dir_ok: "binding2direction k = Some d \<Longrightarrow> dir_ok d"
  unfolding binding2direction_def dir_ok_def
  by (auto dest!: map_of_SomeD intro: rev_image_eqI)

lemma binding2direction_Up [simp]: "binding2direction ''Up'' = Some (0, -1)"
  by (simp add: binding2direction_def binding2direction_list_def)

lemma dom_binding2direction: "dom binding2direction = set (map fst binding2direction_list)"
  by (simp add: binding2direction_def dom_map_of_conv_image_fst)

lemma opposite_opposite [simp]: "opposite (opposite d) = d"
  by (simp add: opposite_def)

lemma wrap_in_grid [simp]: "0 < w \<Longrightarrow> 0 < h \<Longrightarrow> in_grid w h (wrap w h c d)"
  by (simp add: in_grid_def wrap_def)

lemma step_cell_wrap [simp]: "0 < w \<Longrightarrow> 0 < h \<Longrightarrow> step_cell w h c d = Inr (wrap w h c d)"
  by (simp add: step_cell_def wrap_def)

lemma in_grid_mod: "in_grid w h c \<Longrightarrow> fst c mod w = fst c \<and> snd c mod h = snd c"
  by (simp add: in_grid_def)

text \<open>Two wrapped steps are one wrapped step by the sum of the offsets.\<close>

lemma wrap_wrap: "wrap w h (wrap w h c p) d = wrap w h c (fst p + fst d, snd p + snd d)"
  by (simp add: wrap_def mod_add_left_eq mod_add_right_eq ac_simps)

lemma dir_sum_small:
  "dir_ok p \<Longrightarrow> dir_ok d \<Longrightarrow> \<bar>fst p + fst d\<bar> \<le> 2 \<and> \<bar>snd p + snd d\<bar> \<le> 2"
  by (auto simp: dir_ok_iff)

lemma dir_sum_nonzero:
  "d \<noteq> opposite p \<Longrightarrow> fst p + fst d \<noteq> 0 \<or> snd p + snd d \<noteq> 0"
  by (cases p, cases d) (auto simp: opposite_def)

text \<open>A step by a short non-zero offset leaves a cell of the board.\<close>

lemma wrap_shift_ne:
  assumes "in_grid w h n" "fst v \<noteq> 0 \<or> snd v \<noteq> 0" "\<bar>fst v\<bar> < w" "\<bar>snd v\<bar> < h"
  shows "wrap w h n v \<noteq> n"
proof -
  from assms(1) have n: "fst n mod w = fst n" "snd n mod h = snd n"
    by (simp_all add: in_grid_mod)
  from assms(2) show ?thesis
  proof
    assume "fst v \<noteq> 0"
    from mod_shift_ne [OF this assms(3), of "fst n"] n show ?thesis
      by (cases n) (auto simp: wrap_def)
  next
    assume "snd v \<noteq> 0"
    from mod_shift_ne [OF this assms(4), of "snd n"] n show ?thesis
      by (cases n) (auto simp: wrap_def)
  qed
qed

lemma wrap_off_grid: "0 < w \<Longrightarrow> 0 < h \<Longrightarrow> \<not> in_grid w h n \<Longrightarrow> wrap w h c d \<noteq> n"
  using wrap_in_grid by metis

text \<open>A step never stays in place when both axes have at least two cells.\<close>

lemma wrap_moves:
  assumes "dir_ok p" "2 \<le> w" "2 \<le> h"
  shows "wrap w h n p \<noteq> n"
proof (cases "in_grid w h n")
  case True
  with assms show ?thesis by (intro wrap_shift_ne) (auto simp: dir_ok_iff)
qed (use assms in \<open>simp add: wrap_off_grid\<close>)

text \<open>
  Two steps, the second not the reverse of the first, never come back to the start
  when both axes have at least three cells.
\<close>

lemma wrap_no_reverse:
  assumes "dir_ok p" "dir_ok d" "d \<noteq> opposite p" "3 \<le> w" "3 \<le> h"
  shows "wrap w h (wrap w h n p) d \<noteq> n"
proof (cases "in_grid w h n")
  case True
  have "wrap w h n (fst p + fst d, snd p + snd d) \<noteq> n"
    using True dir_sum_nonzero [OF assms(3)] dir_sum_small [OF assms(1,2)] assms(4,5)
    by (intro wrap_shift_ne) auto
  then show ?thesis by (simp add: wrap_wrap)
qed (use assms in \<open>simp add: wrap_off_grid\<close>)


text \<open>
  C10. The code's step \<open>((x+dx) % width, (y+dy) % height)\<close> is the
  specification's \<open>wrap\<close> on every board where it does not raise; it raises
  \<open>ZeroDivisionError\<close> exactly on a board with an axis of size 0; and on a non-empty
  board the cell it returns lies on the board (the spec's wrap invariant).
\<close>

theorem step_cell_spec:
  "step_cell w h c d = (if w = 0 \<or> h = 0 then Inl ZeroDivisionError else Inr (wrap w h c d)) \<and>
   (0 < w \<longrightarrow> 0 < h \<longrightarrow> in_grid w h (wrap w h c d))"
  by (simp add: step_cell_def py_mod_def wrap_def in_grid_def)

theorem step_cell_spec_witness:
  "step_cell 15 10 (0, 0) (0, -1) = Inr (0, 9) \<and> in_grid 15 10 (0, 9)"
  using step_cell_spec [of 15 10 "(0, 0)" "(0, -1)"] by (simp add: wrap_def)

end
