(* ===== verification/Random_Source.thy ===== *)
theory Random_Source
  imports Prelude
begin

text \<open>
  The interface of Python's \<^verbatim>\<open>random\<close> module as the program uses it. The module is a
  library the source only calls, so it is not modelled: its hidden state is a type
  variable \<open>'r\<close>, and the two calls the program makes are the fields of a record
  \<open>'r rng\<close>, each returning the value drawn and the next state:
  \<^item> \<open>randbelow s n\<close> for \<open>random.randrange(n)\<close> with \<open>n > 0\<close>;
  \<^item> \<open>random53 s\<close> for \<open>random.random()\<close>, which CPython computes as
    \<open>m / 2^53\<close> for a 53-bit integer \<open>m\<close>; the model returns \<open>m\<close>.
  \<open>rng_ok\<close> is all the development assumes of a generator: its draws are in range.
  \<open>lcg\<close> is one concrete generator meeting it, used to run the model in witnesses.
\<close>

record 'r rng =
  randbelow :: "'r \<Rightarrow> int \<Rightarrow> int \<times> 'r"
  random53 :: "'r \<Rightarrow> nat \<times> 'r"

text \<open>\<open>random.randrange(n)\<close>: \<open>ValueError\<close> (empty range) unless \<open>n > 0\<close>.\<close>

definition py_randrange :: "'r rng \<Rightarrow> 'r \<Rightarrow> int \<Rightarrow> error + (int \<times> 'r)" where
  "py_randrange R s n = (if n \<le> 0 then Inl ValueError else Inr (randbelow R s n))"

definition rng_ok :: "'r rng \<Rightarrow> bool" where
  "rng_ok R \<longleftrightarrow>
     (\<forall>s n. 0 < n \<longrightarrow> 0 \<le> fst (randbelow R s n) \<and> fst (randbelow R s n) < n) \<and>
     (\<forall>s. fst (random53 R s) < 2 ^ 53)"

text \<open>A linear congruential generator on \<open>nat\<close> states.\<close>

definition lcg_next :: "nat \<Rightarrow> nat" where
  "lcg_next s = (25173 * s + 13849) mod 65536"

definition lcg :: "nat rng" where
  "lcg = \<lparr>randbelow = (\<lambda>s n. (int s mod n, lcg_next s)),
          random53 = (\<lambda>s. (s mod 65536 * 2 ^ 37, lcg_next s))\<rparr>"

lemma rng_ok_lcg: "rng_ok lcg"
proof -
  have "s mod 65536 * 2 ^ 37 < (2::nat) ^ 53" for s :: nat
  proof -
    have "s mod 65536 < (65536::nat)" by simp
    then show ?thesis by simp
  qed
  then show ?thesis by (simp add: rng_ok_def lcg_def)
qed

lemma py_randrange_pos [simp, snake_simps]:
  "0 < n \<Longrightarrow> py_randrange R s n = Inr (randbelow R s n)"
  by (simp add: py_randrange_def)

lemma py_randrange_nonpos [simp, snake_simps]:
  "n \<le> 0 \<Longrightarrow> py_randrange R s n = Inl ValueError"
  by (simp add: py_randrange_def)

lemma rng_ok_randbelow:
  "rng_ok R \<Longrightarrow> 0 < n \<Longrightarrow> 0 \<le> fst (randbelow R s n) \<and> fst (randbelow R s n) < n"
  unfolding rng_ok_def by blast

lemma rng_ok_random53: "rng_ok R \<Longrightarrow> fst (random53 R s) < 2 ^ 53"
  unfolding rng_ok_def by blast

end
