(* ===== verification/Food.thy ===== *)
theory Food
  imports Grid Random_Source
begin

text \<open>
  \<open>SnakeGame.make_food\<close> (lines 49--56 of \<^verbatim>\<open>src/snake.py\<close>): draw a random cell,
  and draw again while it lies on the snake. The loop has no termination argument
  (the source itself says \<open>FIXME: this gets stuck forever if there's no free
  space\<close>), so it is a \<^theory_text>\<open>partial_function\<close> in the \<open>option\<close> monad:
  \<open>None\<close> is "never returns". The lemmas characterise exactly when it returns
  (some draw lands on a free cell), what it returns (the first such draw, which is
  on the grid and off the snake), when it raises (an empty axis), and that on a
  full board it never returns.
\<close>

section \<open>The loop\<close>

text \<open>\<open>(random.randrange(self.width), random.randrange(self.height))\<close>, left to right.\<close>

definition draw_cell :: "'r rng \<Rightarrow> int \<Rightarrow> int \<Rightarrow> 'r \<Rightarrow> error + (cell \<times> 'r)" where
  "draw_cell R w h s =
     (case py_randrange R s w of
        Inl e \<Rightarrow> Inl e
      | Inr (x, s1) \<Rightarrow> (case py_randrange R s1 h of
                         Inl e \<Rightarrow> Inl e
                       | Inr (y, s2) \<Rightarrow> Inr ((x, y), s2)))"

partial_function (option) make_food ::
  "'r rng \<Rightarrow> int \<Rightarrow> int \<Rightarrow> cell list \<Rightarrow> 'r \<Rightarrow> (error + (cell \<times> 'r)) option" where
  "make_food R w h body s =
     (case draw_cell R w h s of
        Inl e \<Rightarrow> Some (Inl e)
      | Inr (c, s') \<Rightarrow> (if c \<in> set body then make_food R w h body s' else Some (Inr (c, s'))))"

text \<open>The recursion equation computes the loop, so it is the code equation.\<close>

declare make_food.simps [code]

section \<open>The sequence of draws\<close>

text \<open>The cell and state of one successful pair of draws, and the state after \<open>k\<close> of them.\<close>

definition draw_pair :: "'r rng \<Rightarrow> int \<Rightarrow> int \<Rightarrow> 'r \<Rightarrow> cell \<times> 'r" where
  "draw_pair R w h s =
     (let (x, s1) = randbelow R s w; (y, s2) = randbelow R s1 h in ((x, y), s2))"

definition draw_state :: "'r rng \<Rightarrow> int \<Rightarrow> int \<Rightarrow> nat \<Rightarrow> 'r \<Rightarrow> 'r" where
  "draw_state R w h k = ((\<lambda>s. snd (draw_pair R w h s)) ^^ k)"

definition nth_draw :: "'r rng \<Rightarrow> int \<Rightarrow> int \<Rightarrow> 'r \<Rightarrow> nat \<Rightarrow> cell" where
  "nth_draw R w h s k = fst (draw_pair R w h (draw_state R w h k s))"

text \<open>
  The loop of lines 52--56 run over a given finite sequence of draws: the first draw off
  the snake, or \<open>None\<close> when the sequence runs out first.
\<close>

definition food_of_draws :: "cell list \<Rightarrow> cell list \<Rightarrow> cell option" where
  "food_of_draws body ds = find (\<lambda>c. c \<notin> set body) ds"

lemma draw_cell_pos [simp]:
  "0 < w \<Longrightarrow> 0 < h \<Longrightarrow> draw_cell R w h s = Inr (draw_pair R w h s)"
  by (simp add: draw_cell_def draw_pair_def split: prod.splits)

lemma draw_cell_error:
  "draw_cell R w h s = Inl e \<Longrightarrow> e = ValueError \<and> (w \<le> 0 \<or> h \<le> 0)"
  by (auto simp: draw_cell_def py_randrange_def split: if_splits prod.splits)

lemma draw_cell_Inr_pos: "draw_cell R w h s = Inr cs \<Longrightarrow> 0 < w \<and> 0 < h"
  by (auto simp: draw_cell_def py_randrange_def split: if_splits prod.splits)

lemma draw_cell_in_grid:
  assumes "rng_ok R" and "draw_cell R w h s = Inr (c, s')"
  shows "in_grid w h c"
proof -
  from assms(2) have "0 < w" "0 < h"
    by (auto simp: draw_cell_def py_randrange_def split: if_splits prod.splits)
  with assms show ?thesis
    by (auto simp: draw_pair_def Let_def split_def in_grid_def dest: rng_ok_randbelow)
qed

lemma draw_state_0 [simp]: "draw_state R w h 0 s = s"
  by (simp add: draw_state_def)

lemma draw_state_Suc: "draw_state R w h (Suc k) s = draw_state R w h k (snd (draw_pair R w h s))"
  by (simp only: draw_state_def funpow_Suc_right comp_def)

lemma nth_draw_0: "nth_draw R w h s 0 = fst (draw_pair R w h s)"
  by (simp add: nth_draw_def)

lemma nth_draw_Suc: "nth_draw R w h s (Suc k) = nth_draw R w h (snd (draw_pair R w h s)) k"
  by (simp add: nth_draw_def draw_state_Suc)

section \<open>What the loop returns\<close>

text \<open>One unfolding of the loop on a grid with both axes non-empty.\<close>

lemma make_food_unfold:
  "0 < w \<Longrightarrow> 0 < h \<Longrightarrow>
   make_food R w h body s =
     (if fst (draw_pair R w h s) \<in> set body then make_food R w h body (snd (draw_pair R w h s))
      else Some (Inr (draw_pair R w h s)))"
  by (subst make_food.simps) (simp split: prod.splits)

text \<open>Partial correctness: whatever the loop returns is an error of an empty axis, or a draw that is off the snake.\<close>

lemma make_food_result:
  assumes ret: "make_food R w h body s = Some r"
  shows "case r of
           Inl e \<Rightarrow> e = ValueError \<and> (w \<le> 0 \<or> h \<le> 0)
         | Inr (c, s') \<Rightarrow> c \<notin> set body \<and> (rng_ok R \<longrightarrow> in_grid w h c)"
proof (rule make_food.raw_induct [where P = "\<lambda>R w h body s r. case r of
           Inl e \<Rightarrow> e = ValueError \<and> (w \<le> 0 \<or> h \<le> 0)
         | Inr (c, s') \<Rightarrow> c \<notin> set body \<and> (rng_ok R \<longrightarrow> in_grid w h c)", OF _ ret],
       goal_cases)
  case (1 mf R w h body s r)
  note IH = "1"(1) and eq = "1"(2)
  show ?case
  proof (cases "draw_cell R w h s")
    case (Inl e)
    with eq show ?thesis by (auto dest: draw_cell_error)
  next
    case (Inr cs)
    then obtain c s' where cs: "draw_cell R w h s = Inr (c, s')" by (cases cs) auto
    show ?thesis
    proof (cases "c \<in> set body")
      case True
      with cs eq have "mf R w h body s' = Some r" by simp
      then show ?thesis by (rule IH)
    next
      case False
      with cs eq have "r = Inr (c, s')" by simp
      with False show ?thesis by (auto intro: draw_cell_in_grid [OF _ cs])
    qed
  qed
qed

text \<open>
  \<open>make_food\<close> raises exactly when an axis of the board is empty, and then it raises
  \<open>ValueError\<close> from \<open>random.randrange\<close>.
\<close>

lemma make_food_raises:
  "make_food R w h body s = Some (Inl e) \<longleftrightarrow> e = ValueError \<and> (w \<le> 0 \<or> h \<le> 0)"
proof
  assume "make_food R w h body s = Some (Inl e)"
  from make_food_result [OF this] show "e = ValueError \<and> (w \<le> 0 \<or> h \<le> 0)" by simp
next
  assume "e = ValueError \<and> (w \<le> 0 \<or> h \<le> 0)"
  then show "make_food R w h body s = Some (Inl e)"
    by (subst make_food.simps) (auto simp: draw_cell_def py_randrange_def split: prod.splits)
qed

lemma make_food_Inr_pos: "make_food R w h body s = Some (Inr x) \<Longrightarrow> 0 < w \<and> 0 < h"
  using make_food_raises [of R w h body s ValueError] by auto

text \<open>A returned cell is one of the draws.\<close>

lemma make_food_returns_draw:
  assumes ret: "make_food R w h body s = Some r"
  shows "\<forall>c s'. r = Inr (c, s') \<longrightarrow> (\<exists>k. c = nth_draw R w h s k)"
proof (rule make_food.raw_induct [where P = "\<lambda>R w h body s r.
          \<forall>c s'. r = Inr (c, s') \<longrightarrow> (\<exists>k. c = nth_draw R w h s k)", OF _ ret],
       goal_cases)
  case (1 mf R w h body s r)
  note IH = "1"(1) and eq = "1"(2)
  show ?case
  proof (cases "0 < w \<and> 0 < h")
    case False
    with eq show ?thesis by (cases "draw_cell R w h s") (auto dest: draw_cell_Inr_pos)
  next
    case True
    let ?d = "draw_pair R w h s"
    show ?thesis
    proof (cases "fst ?d \<in> set body")
      case in_body: True
      with True eq have "mf R w h body (snd ?d) = Some r"
        by (simp split: prod.splits)
      then have "\<forall>c s'. r = Inr (c, s') \<longrightarrow> (\<exists>k. c = nth_draw R w h (snd ?d) k)"
        by (rule IH)
      then show ?thesis by (metis nth_draw_Suc)
    next
      case False
      with True eq show ?thesis by (auto simp: nth_draw_0 split: prod.splits intro: exI [of _ 0])
    qed
  qed
qed

lemma draw_pair_in_grid:
  "rng_ok R \<Longrightarrow> 0 < w \<Longrightarrow> 0 < h \<Longrightarrow> in_grid w h (fst (draw_pair R w h s))"
  by (auto simp: draw_pair_def Let_def split_def in_grid_def dest: rng_ok_randbelow)

lemma nth_draw_in_grid:
  "rng_ok R \<Longrightarrow> 0 < w \<Longrightarrow> 0 < h \<Longrightarrow> in_grid w h (nth_draw R w h s k)"
  by (simp add: nth_draw_def draw_pair_in_grid)

lemma make_food_Some_if_free:
  "0 < w \<Longrightarrow> 0 < h \<Longrightarrow> nth_draw R w h s k \<notin> set body \<Longrightarrow> make_food R w h body s \<noteq> None"
  by (induction k arbitrary: s) (auto simp: make_food_unfold nth_draw_0 nth_draw_Suc)

text \<open>The loop runs forever exactly when every draw lands on the snake.\<close>

lemma make_food_None_iff:
  assumes "0 < w" "0 < h"
  shows "make_food R w h body s = None \<longleftrightarrow> (\<forall>k. nth_draw R w h s k \<in> set body)"
proof
  assume none: "make_food R w h body s = None"
  show "\<forall>k. nth_draw R w h s k \<in> set body"
  proof (rule allI, rule ccontr)
    fix k
    assume "nth_draw R w h s k \<notin> set body"
    from make_food_Some_if_free [OF assms this] none show False by simp
  qed
next
  assume all: "\<forall>k. nth_draw R w h s k \<in> set body"
  show "make_food R w h body s = None"
  proof (rule ccontr)
    assume "make_food R w h body s \<noteq> None"
    then obtain r where r: "make_food R w h body s = Some r" by blast
    from make_food_result [OF r] assms obtain c s' where "r = Inr (c, s')" "c \<notin> set body"
      by (auto split: sum.splits)
    with make_food_returns_draw [OF r] all show False by blast
  qed
qed

text \<open>
  C17. Functional behaviour of the loop: on a non-empty grid it
  returns the first draw that is off the snake, with the generator state after it.
\<close>

theorem make_food_first_free:
  assumes "0 < w" "0 < h"
    and "\<forall>j<k. nth_draw R w h s j \<in> set body" "nth_draw R w h s k \<notin> set body"
  shows "make_food R w h body s = Some (Inr (draw_pair R w h (draw_state R w h k s)))"
  using assms(3,4)
proof (induction k arbitrary: s)
  case 0
  with assms(1,2) show ?case by (simp add: make_food_unfold nth_draw_0)
next
  case (Suc k)
  from Suc.prems(1) have in0: "fst (draw_pair R w h s) \<in> set body"
    by (metis nth_draw_0 zero_less_Suc)
  from Suc.prems have "\<forall>j<k. nth_draw R w h (snd (draw_pair R w h s)) j \<in> set body"
    and "nth_draw R w h (snd (draw_pair R w h s)) k \<notin> set body"
    by (auto simp: nth_draw_Suc [symmetric])
  then have "make_food R w h body (snd (draw_pair R w h s)) =
      Some (Inr (draw_pair R w h (draw_state R w h k (snd (draw_pair R w h s)))))"
    by (rule Suc.IH)
  with in0 assms(1,2) show ?case by (simp add: make_food_unfold draw_state_Suc)
qed

text \<open>
  C21. Whatever \<open>make_food\<close> returns is a cell of the board that
  the snake does not occupy.
\<close>

theorem make_food_sound:
  "rng_ok R \<Longrightarrow> make_food R w h body s = Some (Inr (c, s')) \<Longrightarrow>
   in_grid w h c \<and> c \<notin> set body"
  by (drule make_food_result) auto

text \<open>
  C12. The FIXME of the source: when the snake covers every cell
  of the board, \<open>make_food\<close> never returns, whatever the generator does.
\<close>

theorem make_food_full_board:
  assumes "rng_ok R" "0 < w" "0 < h" "set (grid_cells w h) \<subseteq> set body"
  shows "make_food R w h body s = None"
proof -
  have "\<forall>k. nth_draw R w h s k \<in> set body"
    using nth_draw_in_grid [OF assms(1-3)] assms(4) by (auto simp: set_grid_cells)
  with assms(2,3) show ?thesis by (simp add: make_food_None_iff)
qed



text \<open>\<open>make_food\<close> is that loop over its generator's draws: when the first \<open>n\<close> draws
  contain a cell off the snake, it returns the first such cell.\<close>

lemma make_food_food_of_draws:
  assumes "0 < w" "0 < h" "food_of_draws body (map (nth_draw R w h s) [0..<n]) = Some c"
  shows "\<exists>s'. make_food R w h body s = Some (Inr (c, s'))"
  using assms(3)
proof (induction n arbitrary: s)
  case (Suc n)
  have ds: "map (nth_draw R w h s) [0..<Suc n] =
      fst (draw_pair R w h s) # map (nth_draw R w h (snd (draw_pair R w h s))) [0..<n]"
    by (simp add: upt_conv_Cons map_Suc_upt [symmetric] nth_draw_0 nth_draw_Suc comp_def del: upt_Suc)
  show ?case
  proof (cases "fst (draw_pair R w h s) \<in> set body")
    case True
    with Suc.prems ds have "food_of_draws body (map (nth_draw R w h (snd (draw_pair R w h s))) [0..<n]) =
        Some c" by (simp add: food_of_draws_def)
    with Suc.IH True assms(1,2) show ?thesis by (simp add: make_food_unfold)
  next
    case False
    with Suc.prems ds assms(1,2) show ?thesis
      by (cases "draw_pair R w h s") (simp add: food_of_draws_def make_food_unfold)
  qed
qed (simp add: food_of_draws_def)


section \<open>Witnesses\<close>

lemma make_food_lcg_3_3: "make_food lcg 3 3 [(1, 1)] (1::nat) = Some (Inr ((1, 0), 45005))"
  by (simp add: make_food_unfold draw_pair_def lcg_def lcg_next_def)

theorem make_food_first_free_witness:
  "make_food lcg 3 3 [(1, 1)] (1::nat) =
     Some (Inr (draw_pair lcg 3 3 (draw_state lcg 3 3 1 (1::nat))))"
proof -
  have d0: "nth_draw lcg 3 3 (1::nat) 0 = (1, 1)"
    by (simp add: nth_draw_def draw_pair_def lcg_def lcg_next_def)
  have d1: "nth_draw lcg 3 3 (1::nat) 1 = (1, 0)"
    by (simp add: nth_draw_def draw_pair_def draw_state_def lcg_def lcg_next_def)
  from d0 have "\<forall>j<1. nth_draw lcg 3 3 (1::nat) j \<in> set [(1, 1)]" by simp
  from make_food_first_free [where R = lcg and w = 3 and h = 3 and s = 1 and k = 1,
      OF _ _ this] d1 show ?thesis by simp
qed

theorem make_food_sound_witness: "in_grid 3 3 (1, 0) \<and> (1::int, 0::int) \<notin> set [(1, 1)]"
  using make_food_sound [OF rng_ok_lcg make_food_lcg_3_3] .

theorem make_food_full_board_witness: "make_food lcg 1 1 [(0, 0)] (0::nat) = None"
proof -
  have "set (grid_cells 1 1) \<subseteq> set [(0::int, 0::int)]" by (simp add: grid_cells_def)
  from make_food_full_board [OF rng_ok_lcg _ _ this] show ?thesis by simp
qed


end
