(* ===== verification/Game.thy ===== *)
theory Game
  imports Food
begin

text \<open>
  The game engine, class \<open>SnakeGame\<close> of \<^verbatim>\<open>src/snake.py\<close>: its state (the
  attributes that are not Tk widgets) as a record, and its handlers \<open>__init__\<close>,
  \<open>move\<close> and \<open>on_key\<close> as functions on that state and on the state of the random
  generator. Each handler returns an \<open>outcome\<close>: \<open>None\<close> when it never returns (a
  call of \<open>make_food\<close> on a full board), an exception, or the new game state, the new
  generator state and the delay of the timer it arms with \<open>canvas.after\<close>, if any.
  Drawing (\<open>refresh\<close>, the game-over text) changes no game state; what \<open>refresh\<close>
  shows is modelled in theory \<open>Render\<close>.
\<close>

section \<open>State\<close>

record game =
  width :: int
  height :: int
  scale :: int
  snake_body :: "cell list"
  previous_direction :: direction
  next_direction :: direction
  game_over :: bool
  food :: cell

text \<open>The result of a handler: game, generator state, delay of the timer it armed.\<close>

type_synonym 'r handler_result = "(game \<times> 'r \<times> nat option) outcome"

section \<open>Operations\<close>

text \<open>
  \<open>sleeptime = int(random.random() * 1000 / len(self.snake_body))\<close> with
  \<open>random.random() = m / 2^53\<close>, computed exactly (see the header of
  \<open>Spec2Isabelle\<close> on float rounding).
\<close>

definition sleeptime :: "nat \<Rightarrow> nat \<Rightarrow> error + nat" where
  "sleeptime m n = (if n = 0 then Inl ZeroDivisionError else Inr ((m * 1000) div (2 ^ 53 * n)))"

text \<open>The tail of \<open>move\<close>: \<open>if schedule_again:\<close> draw a delay and arm the timer.\<close>

definition schedule_next :: "'r rng \<Rightarrow> bool \<Rightarrow> game \<Rightarrow> 'r \<Rightarrow> 'r handler_result" where
  "schedule_next R schedule_again g s =
     (if schedule_again then
        (case random53 R s of
           (m, s') \<Rightarrow> (case sleeptime m (length (snake_body g)) of
                         Inl e \<Rightarrow> Some (Inl e)
                       | Inr t \<Rightarrow> Some (Inr (g, s', Some t))))
      else Some (Inr (g, s, None)))"

definition move :: "'r rng \<Rightarrow> bool \<Rightarrow> game \<Rightarrow> 'r \<Rightarrow> 'r handler_result" where
  "move R schedule_again g s =
     (if game_over g then Some (Inr (g, s, None))
      else (case py_last (snake_body g) of
        Inl e \<Rightarrow> Some (Inl e)
      | Inr last_xy \<Rightarrow>
          (let g1 = g\<lparr>previous_direction := next_direction g\<rparr> in
           case step_cell (width g1) (height g1) last_xy (previous_direction g1) of
             Inl e \<Rightarrow> Some (Inl e)
           | Inr xy \<Rightarrow>
               (if xy \<in> set (snake_body g1) then
                  Some (Inr (g1\<lparr>snake_body := snake_body g1 @ [xy], game_over := True\<rparr>, s, None))
                else
                  (let g2 = g1\<lparr>snake_body := snake_body g1 @ [xy]\<rparr> in
                   if food g2 = xy then
                     (case make_food R (width g2) (height g2) (snake_body g2) s of
                        None \<Rightarrow> None
                      | Some (Inl e) \<Rightarrow> Some (Inl e)
                      | Some (Inr (f, s')) \<Rightarrow> schedule_next R schedule_again (g2\<lparr>food := f\<rparr>) s')
                   else schedule_next R schedule_again (g2\<lparr>snake_body := tl (snake_body g2)\<rparr>) s)))))"

definition on_key :: "'r rng \<Rightarrow> string \<Rightarrow> game \<Rightarrow> 'r \<Rightarrow> 'r handler_result" where
  "on_key R keysym g s =
     (if game_over g then Some (Inr (g, s, None))
      else (case binding2direction keysym of
        None \<Rightarrow> Some (Inl KeyError)
      | Some new_direction \<Rightarrow>
          (if new_direction \<noteq> opposite (previous_direction g)
           then move R False (g\<lparr>next_direction := new_direction\<rparr>) s
           else Some (Inr (g, s, None)))))"

text \<open>\<open>collections.deque((x, height//2) for x in range(5))\<close>\<close>

definition init_body :: "int \<Rightarrow> cell list" where
  "init_body h = map (\<lambda>x. (int x, h div 2)) [0..<5]"

text \<open>
  \<open>__init__\<close> without its widgets: the body, both directions \<open>binding2direction['Up']\<close>,
  \<open>game_over = False\<close>, the first food, then \<open>self.move(schedule_again=True)\<close>.
\<close>

definition snake_game_init :: "'r rng \<Rightarrow> int \<Rightarrow> int \<Rightarrow> int \<Rightarrow> 'r \<Rightarrow> 'r handler_result" where
  "snake_game_init R w h sc s =
     (let body = init_body h; d = the (binding2direction ''Up'') in
      case make_food R w h body s of
        None \<Rightarrow> None
      | Some (Inl e) \<Rightarrow> Some (Inl e)
      | Some (Inr (f, s')) \<Rightarrow>
          move R True
            \<lparr>width = w, height = h, scale = sc, snake_body = body, previous_direction = d,
             next_direction = d, game_over = False, food = f\<rparr> s')"

section \<open>Example states\<close>

text \<open>
  The state the constructor builds for \<open>main\<close>'s \<open>SnakeGame(root, 15, 10, scale=40)\<close>
  with generator \<open>lcg\<close> and seed 7, and a snake coiled so that going up bites its tail.
\<close>

definition demo_game :: game where
  "demo_game = \<lparr>width = 15, height = 10, scale = 40,
     snake_body = [(1, 5), (2, 5), (3, 5), (4, 5), (4, 4)],
     previous_direction = (0, -1), next_direction = (0, -1), game_over = False, food = (7, 8)\<rparr>"

definition demo_coil :: game where
  "demo_coil = \<lparr>width = 15, height = 10, scale = 40,
     snake_body = [(4, 3), (5, 3), (5, 4), (4, 4)],
     previous_direction = (-1, 0), next_direction = (-1, 0), game_over = False, food = (7, 8)\<rparr>"

section \<open>Invariants\<close>

text \<open>The cell the next move enters.\<close>

definition next_head :: "game \<Rightarrow> cell" where
  "next_head g = wrap (width g) (height g) (last (snake_body g)) (next_direction g)"

text \<open>
  The body has no repeated cell while the game runs; after the fatal move it has
  exactly one, its head, which occurs once more further back.
\<close>

definition body_ok :: "bool \<Rightarrow> cell list \<Rightarrow> bool" where
  "body_ok over b \<longleftrightarrow>
     (if over then distinct (butlast b) \<and> last b \<in> set (butlast b) else distinct b)"

definition snake_inv :: "game \<Rightarrow> bool" where
  "snake_inv g \<longleftrightarrow>
     0 < width g \<and> 0 < height g \<and> 2 \<le> length (snake_body g) \<and>
     body_ok (game_over g) (snake_body g) \<and>
     food g \<notin> set (snake_body g) \<and> in_grid (width g) (height g) (food g)"

text \<open>
  Between events both direction fields agree, and the head is one step of that
  direction away from the cell behind it (the neck).
\<close>

definition steer_inv :: "game \<Rightarrow> bool" where
  "steer_inv g \<longleftrightarrow>
     previous_direction g = next_direction g \<and> dir_ok (previous_direction g) \<and>
     last (snake_body g) =
       wrap (width g) (height g) (last (butlast (snake_body g))) (previous_direction g)"

section \<open>Lemmas on the operations\<close>

lemma schedule_next_False [simp]: "schedule_next R False g s = Some (Inr (g, s, None))"
  by (simp add: schedule_next_def)

lemma schedule_next_Inr:
  "snake_body g \<noteq> [] \<Longrightarrow>
   schedule_next R b g s =
     Some (Inr (g, if b then snd (random53 R s) else s,
                if b then Some ((fst (random53 R s) * 1000) div (2 ^ 53 * length (snake_body g)))
                else None))"
  by (simp add: schedule_next_def sleeptime_def split: prod.splits)

lemma schedule_next_game:
  "schedule_next R b g s = Some (Inr (g', s', t)) \<Longrightarrow> snake_body g \<noteq> [] \<Longrightarrow>
   g' = g \<and> (t \<noteq> None \<longleftrightarrow> b)"
  by (auto simp: schedule_next_Inr split: if_splits)

lemma snake_inv_nonempty: "snake_inv g \<Longrightarrow> snake_body g \<noteq> []"
  by (auto simp: snake_inv_def)

lemma move_over [simp]: "game_over g \<Longrightarrow> move R b g s = Some (Inr (g, s, None))"
  by (simp add: move_def)

text \<open>\<open>move\<close> on a running game with a non-empty body and a non-empty grid: no exception.\<close>

lemma move_running:
  assumes "\<not> game_over g" "0 < width g" "0 < height g" "snake_body g \<noteq> []"
  shows "move R b g s =
    (let xy = next_head g; g1 = g\<lparr>previous_direction := next_direction g\<rparr> in
     if xy \<in> set (snake_body g) then
       Some (Inr (g1\<lparr>snake_body := snake_body g @ [xy], game_over := True\<rparr>, s, None))
     else if food g = xy then
       (case make_food R (width g) (height g) (snake_body g @ [xy]) s of
          None \<Rightarrow> None
        | Some (Inl e) \<Rightarrow> Some (Inl e)
        | Some (Inr (f, s')) \<Rightarrow>
            schedule_next R b (g1\<lparr>snake_body := snake_body g @ [xy], food := f\<rparr>) s')
     else schedule_next R b (g1\<lparr>snake_body := tl (snake_body g @ [xy])\<rparr>) s)"
  using assms by (simp add: move_def next_head_def Let_def)

lemma snake_inv_running:
  "snake_inv g \<Longrightarrow> \<not> game_over g \<Longrightarrow>
   0 < width g \<and> 0 < height g \<and> snake_body g \<noteq> [] \<and> distinct (snake_body g) \<and>
   food g \<notin> set (snake_body g)"
  by (auto simp: snake_inv_def body_ok_def)

lemma schedule_next_self:
  "schedule_next R b g s = Some (Inr (g', s', t)) \<Longrightarrow> snake_body g \<noteq> [] \<Longrightarrow>
   g' = g \<and> schedule_next R b g' s = Some (Inr (g', s', t))"
  by (frule (1) schedule_next_game) simp

text \<open>The three ways a move of a running game can return.\<close>

lemma move_Inr_cases [consumes 3, case_names collide eat step]:
  assumes "move R b g s = Some (Inr (g', s', t))" "snake_inv g" "\<not> game_over g"
  obtains "next_head g \<in> set (snake_body g)"
      "g' = g\<lparr>previous_direction := next_direction g,
              snake_body := snake_body g @ [next_head g], game_over := True\<rparr>"
      "s' = s" "t = None"
  | f s1 where "next_head g \<notin> set (snake_body g)" "food g = next_head g"
      "make_food R (width g) (height g) (snake_body g @ [next_head g]) s = Some (Inr (f, s1))"
      "g' = g\<lparr>previous_direction := next_direction g,
              snake_body := snake_body g @ [next_head g], food := f\<rparr>"
      "schedule_next R b g' s1 = Some (Inr (g', s', t))"
  | "next_head g \<notin> set (snake_body g)" "food g \<noteq> next_head g"
      "g' = g\<lparr>previous_direction := next_direction g,
              snake_body := tl (snake_body g @ [next_head g])\<rparr>"
      "schedule_next R b g' s = Some (Inr (g', s', t))"
proof -
  let ?nh = "next_head g" and ?g1 = "g\<lparr>previous_direction := next_direction g\<rparr>"
  from snake_inv_running [OF assms(2,3)]
  have w: "0 < width g" and h: "0 < height g" and ne: "snake_body g \<noteq> []" by auto
  note mv = assms(1) [unfolded move_running [OF assms(3) w h ne] Let_def]
  show thesis
  proof (cases "?nh \<in> set (snake_body g)")
    case True
    with mv show thesis by (intro that(1)) auto
  next
    case nb: False
    show thesis
    proof (cases "food g = ?nh")
      case True
      with nb mv obtain f s1 where
        mf: "make_food R (width g) (height g) (snake_body g @ [?nh]) s = Some (Inr (f, s1))" and
        sch: "schedule_next R b (?g1\<lparr>snake_body := snake_body g @ [?nh], food := f\<rparr>) s1 =
                Some (Inr (g', s', t))"
        by (auto split: option.splits sum.splits prod.splits)
      from schedule_next_self [OF sch] nb True mf show thesis
        by (intro that(2)) auto
    next
      case False
      with nb mv have
        sch: "schedule_next R b (?g1\<lparr>snake_body := tl (snake_body g @ [?nh])\<rparr>) s =
                Some (Inr (g', s', t))"
        by simp
      from schedule_next_self [OF sch] nb False ne show thesis
        by (intro that(3)) auto
    qed
  qed
qed

lemma steer_inv_next_dir: "steer_inv g \<Longrightarrow> dir_ok (next_direction g)"
  unfolding steer_inv_def by metis

lemma snake_inv_next_direction [simp]: "snake_inv (g\<lparr>next_direction := d\<rparr>) = snake_inv g"
  by (simp add: snake_inv_def)


text \<open>\<open>move\<close> raises nothing on a non-empty board and body.\<close>

lemma move_no_error:
  assumes "0 < width g" "0 < height g" "snake_body g \<noteq> []"
  shows "move R b g s \<noteq> Some (Inl e)"
proof (cases "game_over g")
  case False
  then show ?thesis using assms make_food_raises [of R "width g" "height g"]
    by (auto simp: move_running Let_def schedule_next_Inr
        split: option.splits sum.splits prod.splits)
qed simp

text \<open>A move that does not eat needs no food and always returns.\<close>

lemma move_returns_no_eat:
  assumes "snake_inv g" "next_head g \<noteq> food g"
  shows "move R b g s \<noteq> None"
proof (cases "game_over g")
  case False
  from snake_inv_running [OF assms(1) False] have "0 < width g" "0 < height g" "snake_body g \<noteq> []"
    by simp_all
  with False assms(2) show ?thesis
    by (auto simp: move_running Let_def schedule_next_def split: prod.splits sum.splits)
qed simp

text \<open>What a move of a running game does, on every branch.\<close>

lemma move_result:
  assumes "snake_inv g" "\<not> game_over g" "move R b g s = Some (Inr (g', s', t))"
  shows "game_over g' = (next_head g \<in> set (snake_body g)) \<and>
    snake_body g' = (if next_head g \<in> set (snake_body g) \<or> next_head g = food g
                     then snake_body g @ [next_head g] else tl (snake_body g @ [next_head g])) \<and>
    previous_direction g' = next_direction g \<and> next_direction g' = next_direction g \<and>
    width g' = width g \<and> height g' = height g \<and>
    (food g' = food g \<longleftrightarrow> next_head g \<in> set (snake_body g) \<or> next_head g \<noteq> food g) \<and>
    (t \<noteq> None \<longleftrightarrow> b \<and> next_head g \<notin> set (snake_body g))"
proof -
  from assms(3,1,2) show ?thesis
  proof (cases rule: move_Inr_cases)
    case (eat f s1)
    from make_food_result [OF eat(3)] eat(2) have "f \<noteq> food g" by auto
    moreover from schedule_next_game [OF eat(5)] eat(4) have "t \<noteq> None \<longleftrightarrow> b" by simp
    ultimately show ?thesis using eat assms(2) by simp
  next
    case step
    from schedule_next_game [OF step(4)] step(3) snake_inv_running [OF assms(1,2)]
    have "t \<noteq> None \<longleftrightarrow> b" by simp
    with step assms(2) show ?thesis by simp
  qed (use assms(2) in auto)
qed

lemma move_last:
  "snake_inv g \<Longrightarrow> \<not> game_over g \<Longrightarrow> move R b g s = Some (Inr (g', s', t)) \<Longrightarrow>
   last (snake_body g') = next_head g"
  using move_result [of g R b s g' s' t] snake_inv_running [of g] by auto

lemma move_inv:
  assumes "rng_ok R" "snake_inv g" "move R b g s = Some (Inr (g', s', t))"
  shows "snake_inv g'"
proof (cases "game_over g")
  case True
  with assms(2,3) show ?thesis by simp
next
  case False
  note run = snake_inv_running [OF assms(2) False]
  from assms(3,2) False show ?thesis
  proof (cases rule: move_Inr_cases)
    case collide
    with assms(2) run False show ?thesis by (auto simp: snake_inv_def body_ok_def)
  next
    case (eat f s1)
    from make_food_result [OF eat(3)] assms(1)
    have "f \<notin> set (snake_body g @ [next_head g])" "in_grid (width g) (height g) f" by auto
    with eat assms(2) run False show ?thesis by (auto simp: snake_inv_def body_ok_def)
  next
    case step
    with assms(2) run False show ?thesis
      by (auto simp: snake_inv_def body_ok_def distinct_tl dest: in_set_tlD)
  qed
qed

lemma move_steer:
  assumes "snake_inv g" "\<not> game_over g" "dir_ok (next_direction g)"
    and "move R b g s = Some (Inr (g', s', t))"
  shows "steer_inv g'"
proof -
  have len: "2 \<le> length (snake_body g)" using assms(1) by (simp add: snake_inv_def)
  from move_result [OF assms(1,2,4)] move_last [OF assms(1,2,4)] assms(3) len show ?thesis
    by (auto simp: steer_inv_def next_head_def last_butlast_snoc_tl)
qed

text \<open>The delay bound: \<open>int(r * 1000 / n) < 1000 / n\<close> for \<open>r = m / 2^53 < 1\<close>.\<close>

lemma delay_bound:
  fixes m n :: nat
  assumes "m < 2 ^ 53" "0 < n"
  shows "(m * 1000) div (2 ^ 53 * n) * n < 1000"
proof -
  let ?q = "(m * 1000) div (2 ^ 53 * n)"
  have "?q * (2 ^ 53 * n) \<le> m * 1000" by (rule div_times_less_eq_dividend)
  also have "\<dots> < 2 ^ 53 * 1000" using assms(1) by simp
  finally have "(?q * n) * 2 ^ 53 < 1000 * 2 ^ 53" by (simp add: ac_simps)
  then show ?thesis using mult_less_cancel2 by blast
qed

lemma sleeptime_bound: "m < 2 ^ 53 \<Longrightarrow> sleeptime m n = Inr d \<Longrightarrow> d * n < 1000"
  using delay_bound [of m n] by (auto simp: sleeptime_def ac_simps split: if_splits)

lemma schedule_next_delay:
  assumes "rng_ok R" "schedule_next R b g s = Some (Inr (g', s', Some d))"
  shows "d * length (snake_body g) < 1000"
proof -
  obtain m s1 where r: "random53 R s = (m, s1)" by (cases "random53 R s")
  with assms(2) have st: "sleeptime m (length (snake_body g)) = Inr d"
    by (auto simp: schedule_next_def split: if_splits sum.splits)
  from rng_ok_random53 [OF assms(1), of s] r have "m < 2 ^ 53" by simp
  from sleeptime_bound [OF this st] show ?thesis .
qed

lemma move_delay:
  assumes "rng_ok R" "snake_inv g" "\<not> game_over g" "move R b g s = Some (Inr (g', s', Some d))"
  shows "d * length (snake_body g') < 1000"
  using assms(4,2,3)
proof (cases rule: move_Inr_cases)
  case (eat f s1)
  with assms(1) show ?thesis by (auto dest: schedule_next_delay)
next
  case step
  with assms(1) show ?thesis by (auto dest: schedule_next_delay)
qed simp

lemma on_key_running:
  "\<not> game_over g \<Longrightarrow> binding2direction k = Some d \<Longrightarrow>
   on_key R k g s = (if d \<noteq> opposite (previous_direction g)
                      then move R False (g\<lparr>next_direction := d\<rparr>) s else Some (Inr (g, s, None)))"
  by (simp add: on_key_def)

lemma next_head_set_direction [simp]:
  "next_head (g\<lparr>next_direction := d\<rparr>) = wrap (width g) (height g) (last (snake_body g)) d"
  by (simp add: next_head_def)

lemma on_key_over [simp]: "game_over g \<Longrightarrow> on_key R k g s = Some (Inr (g, s, None))"
  by (simp add: on_key_def)

lemma on_key_unbound: "\<not> game_over g \<Longrightarrow> binding2direction k = None \<Longrightarrow> on_key R k g s = Some (Inl KeyError)"
  by (simp add: on_key_def)

text \<open>A key press of a running game: rejected, or an immediate move without a timer.\<close>

lemma on_key_cases [consumes 3, case_names rejected accepted]:
  assumes "on_key R k g s = Some (Inr (g', s', t))" "snake_inv g" "\<not> game_over g"
  obtains d where "binding2direction k = Some d" "d = opposite (previous_direction g)"
      "g' = g" "s' = s" "t = None"
  | d where "binding2direction k = Some d" "d \<noteq> opposite (previous_direction g)"
      "move R False (g\<lparr>next_direction := d\<rparr>) s = Some (Inr (g', s', t))"
      "snake_inv (g\<lparr>next_direction := d\<rparr>)" "\<not> game_over (g\<lparr>next_direction := d\<rparr>)" "t = None"
proof (cases "binding2direction k")
  case None
  with assms(1,3) show thesis by (simp add: on_key_unbound)
next
  case (Some d)
  show thesis
  proof (cases "d = opposite (previous_direction g)")
    case True
    with Some assms(1,3) show thesis by (intro that(1)) (auto simp: on_key_running)
  next
    case False
    with Some assms(1,3) have mv: "move R False (g\<lparr>next_direction := d\<rparr>) s = Some (Inr (g', s', t))"
      by (simp add: on_key_running)
    from move_result [OF _ _ mv] assms(2,3) have "t = None" by simp
    with Some False mv assms(2,3) show thesis by (intro that(2)) auto
  qed
qed

lemma on_key_inv:
  assumes "rng_ok R" "snake_inv g" "on_key R k g s = Some (Inr (g', s', t))"
  shows "snake_inv g'"
proof (cases "game_over g")
  case False
  from assms(3,2) False show ?thesis
  proof (cases rule: on_key_cases)
    case (accepted d)
    from move_inv [OF assms(1) accepted(4,3)] show ?thesis .
  qed (use assms(2) in simp)
qed (use assms in simp)

lemma on_key_steer:
  assumes "snake_inv g" "steer_inv g" "on_key R k g s = Some (Inr (g', s', t))"
  shows "steer_inv g' \<and> t = None"
proof (cases "game_over g")
  case False
  from assms(3,1) False show ?thesis
  proof (cases rule: on_key_cases)
    case (accepted d)
    from binding2direction_dir_ok [OF accepted(1)]
    have "dir_ok (next_direction (g\<lparr>next_direction := d\<rparr>))" by simp
    from move_steer [OF accepted(4,5) this accepted(3)] accepted(6) show ?thesis by simp
  qed (use assms(2) in simp)
qed (use assms in simp)

section \<open>The constructor\<close>

lemma set_init_body:
  "set (init_body h) = {(0, h div 2), (1, h div 2), (2, h div 2), (3, h div 2), (4, h div 2)}"
  by (simp add: init_body_def upt_rec)

lemma init_body_facts [simp]:
  "distinct (init_body h)" "length (init_body h) = 5" "last (init_body h) = (4, h div 2)"
  "init_body h \<noteq> []"
  by (simp_all add: init_body_def upt_rec)

text \<open>The head of the constructor's first move lands on the initial body only on a one-row board.\<close>

lemma init_head_in_body:
  assumes "0 < w" "0 < h"
  shows "(4 mod w, (h div 2 - 1) mod h) \<in> set (init_body h) \<longleftrightarrow> h = 1"
proof
  assume "h = 1"
  moreover have "0 \<le> 4 mod w" "4 mod w \<le> (4::int)"
    using assms(1) by (simp_all add: zmod_le_nonneg_dividend)
  ultimately show "(4 mod w, (h div 2 - 1) mod h) \<in> set (init_body h)"
    by (auto simp: set_init_body)
next
  assume mem: "(4 mod w, (h div 2 - 1) mod h) \<in> set (init_body h)"
  show "h = 1"
  proof (rule ccontr)
    assume "h \<noteq> 1"
    with assms(2) have "0 \<le> h div 2 - 1" "h div 2 - 1 < h" by auto
    then have "(h div 2 - 1) mod h = h div 2 - 1" by simp
    with mem show False by (auto simp: set_init_body)
  qed
qed

text \<open>What the constructor builds before its first move.\<close>

lemma snake_game_init_Inr:
  assumes "snake_game_init R w h sc s = Some (Inr (g, s', t))"
  obtains f s1 where "make_food R w h (init_body h) s = Some (Inr (f, s1))"
    "move R True \<lparr>width = w, height = h, scale = sc, snake_body = init_body h,
       previous_direction = (0, -1), next_direction = (0, -1), game_over = False, food = f\<rparr> s1 =
     Some (Inr (g, s', t))"
  using assms by (auto simp: snake_game_init_def Let_def split: option.splits sum.splits prod.splits intro: that)

lemma snake_game_init_pre_inv:
  assumes "rng_ok R" "make_food R w h (init_body h) s = Some (Inr (f, s1))"
  shows "snake_inv \<lparr>width = w, height = h, scale = sc, snake_body = init_body h,
           previous_direction = (0, -1), next_direction = (0, -1), game_over = False, food = f\<rparr>"
  using make_food_result [OF assms(2)] make_food_Inr_pos [OF assms(2)] assms(1)
  by (simp add: snake_inv_def body_ok_def)

text \<open>After construction the engine invariants hold and a timer runs iff the game does.\<close>

lemma snake_game_init_inv:
  assumes "rng_ok R" "snake_game_init R w h sc s = Some (Inr (g, s', t))"
  shows "snake_inv g \<and> steer_inv g \<and> (t \<noteq> None \<longleftrightarrow> \<not> game_over g)"
proof -
  from assms(2) obtain f s1 where mf: "make_food R w h (init_body h) s = Some (Inr (f, s1))"
    and mv: "move R True \<lparr>width = w, height = h, scale = sc, snake_body = init_body h,
       previous_direction = (0, -1), next_direction = (0, -1), game_over = False, food = f\<rparr> s1 =
       Some (Inr (g, s', t))"
    by (rule snake_game_init_Inr)
  note inv0 = snake_game_init_pre_inv [OF assms(1) mf, of sc]
  have "dir_ok (0, -1)" by (simp add: dir_ok_iff)
  with move_inv [OF assms(1) inv0 mv] move_steer [OF inv0 _ _ mv] move_result [OF inv0 _ mv]
  show ?thesis by simp
qed

section \<open>Properties of the engine\<close>

text \<open>
  C4. Growth: a move that does not end the game makes the body one cell
  longer exactly when the new head is on the food, and leaves its length unchanged
  otherwise.
\<close>

theorem move_growth:
  assumes "snake_inv g" "\<not> game_over g" "move R b g s = Some (Inr (g', s', t))"
    and "\<not> game_over g'"
  shows "length (snake_body g') =
           (if next_head g = food g then Suc (length (snake_body g)) else length (snake_body g))"
  using move_result [OF assms(1-3)] assms(4) snake_inv_running [OF assms(1,2)] by auto

text \<open>
  C3. Self-collision: a move ends the game exactly when the new head is
  already on the body; the fatal move still appends the head (so the last frame shows
  the overlap), keeps the food, and arms no timer.
\<close>

theorem move_collision:
  assumes "snake_inv g" "\<not> game_over g" "move R b g s = Some (Inr (g', s', t))"
  shows "(game_over g' \<longleftrightarrow> next_head g \<in> set (snake_body g)) \<and>
         (game_over g' \<longrightarrow>
            snake_body g' = snake_body g @ [next_head g] \<and> food g' = food g \<and> t = None)"
  using move_result [OF assms] by auto

text \<open>
  C18. A move of a running game fails to return only when the snake
  eats and then every later draw of \<open>make_food\<close> lands on the grown snake.
\<close>

theorem move_terminates:
  assumes "snake_inv g" "\<not> game_over g"
  shows "move R b g s = None \<longleftrightarrow>
    next_head g \<notin> set (snake_body g) \<and> next_head g = food g \<and>
    (\<forall>k. nth_draw R (width g) (height g) s k \<in> set (snake_body g @ [next_head g]))"
proof -
  from snake_inv_running [OF assms]
  have w: "0 < width g" and h: "0 < height g" and ne: "snake_body g \<noteq> []" by auto
  let ?mf = "make_food R (width g) (height g) (snake_body g @ [next_head g]) s"
  have "move R b g s = None \<longleftrightarrow>
      next_head g \<notin> set (snake_body g) \<and> next_head g = food g \<and> ?mf = None"
    using ne by (auto simp: move_running [OF assms(2) w h ne] Let_def schedule_next_Inr
                      split: option.splits sum.splits prod.splits)
  also have "\<dots> \<longleftrightarrow> next_head g \<notin> set (snake_body g) \<and> next_head g = food g \<and>
      (\<forall>k. nth_draw R (width g) (height g) s k \<in> set (snake_body g @ [next_head g]))"
    by (simp add: make_food_None_iff [OF w h])
  finally show ?thesis .
qed

text \<open>
  C20. The timer chain: a scheduled move re-arms the timer exactly when the
  game goes on, and the delay it draws is below \<open>1000 / len(snake_body)\<close> ms.
\<close>

theorem move_timer:
  assumes "rng_ok R" "snake_inv g" "move R True g s = Some (Inr (g', s', t))"
  shows "(t \<noteq> None \<longleftrightarrow> \<not> game_over g') \<and>
         (\<forall>d. t = Some d \<longrightarrow> d * length (snake_body g') < 1000)"
proof (cases "game_over g")
  case True
  with assms(3) show ?thesis by simp
next
  case False
  from move_result [OF assms(2) False assms(3)] have "t \<noteq> None \<longleftrightarrow> \<not> game_over g'" by simp
  moreover have "\<forall>d. t = Some d \<longrightarrow> d * length (snake_body g') < 1000"
    using move_delay [OF assms(1,2) False] assms(3) by blast
  ultimately show ?thesis by blast
qed

text \<open>
  C5. Direction arbitration: a key whose direction is the reverse of
  the last move is ignored; any other key moves the snake at once one step in its
  direction (no waiting for the timer), and no key press arms a timer.
\<close>

theorem on_key_arbitration:
  assumes "snake_inv g" "\<not> game_over g" "binding2direction k = Some d"
    and "on_key R k g s = Some (Inr (g', s', t))"
  shows "t = None \<and>
    (if d = opposite (previous_direction g) then g' = g \<and> s' = s
     else previous_direction g' = d \<and> next_direction g' = d \<and>
          last (snake_body g') = wrap (width g) (height g) (last (snake_body g)) d)"
  using assms(4,1,2)
proof (cases rule: on_key_cases)
  case (accepted d')
  with assms(3) have "d' = d" by simp
  with accepted move_result [OF accepted(4,5,3)] move_last [OF accepted(4,5,3)] show ?thesis
    by simp
qed (use assms(3) in simp)

text \<open>
  C11. A key press never moves the head onto the cell right behind
  it (the neck), on a board of at least 3 by 3: the "can't turn around" rule does
  what it is for.
\<close>

theorem on_key_no_neck_bite:
  assumes "snake_inv g" "steer_inv g" "\<not> game_over g" "3 \<le> width g" "3 \<le> height g"
    and "on_key R k g s = Some (Inr (g', s', t))"
  shows "last (snake_body g') \<noteq> last (butlast (snake_body g))"
proof -
  let ?w = "width g" and ?h = "height g" and ?n = "last (butlast (snake_body g))"
    and ?p = "previous_direction g"
  from assms(2) have neck: "last (snake_body g) = wrap ?w ?h ?n ?p" and p: "dir_ok ?p"
    unfolding steer_inv_def by blast+
  from assms(6,1,3) show ?thesis
  proof (cases rule: on_key_cases)
    case (rejected d)
    from p assms(4,5) have "wrap ?w ?h ?n ?p \<noteq> ?n" by (intro wrap_moves) auto
    with neck rejected show ?thesis by simp
  next
    case (accepted d)
    from p binding2direction_dir_ok [OF accepted(1)] accepted(2) assms(4,5)
    have "wrap ?w ?h (wrap ?w ?h ?n ?p) d \<noteq> ?n" by (rule wrap_no_reverse)
    with neck move_last [OF accepted(4,5,3)] show ?thesis by simp
  qed
qed

text \<open>
  C25. The only exception a key press raises is \<open>KeyError\<close>, for a key
  name that is not in \<open>binding2direction\<close>, and only while the game runs.
\<close>

theorem on_key_KeyError:
  assumes "snake_inv g"
  shows "on_key R k g s = Some (Inl e) \<longleftrightarrow>
         \<not> game_over g \<and> binding2direction k = None \<and> e = KeyError"
proof (cases "game_over g")
  case False
  with assms have "0 < width g" "0 < height g" "snake_body g \<noteq> []"
    by (auto dest: snake_inv_running)
  with False show ?thesis
    using move_no_error [of "g\<lparr>next_direction := d\<rparr>" R False s e for d]
    by (auto simp: on_key_def split: option.splits)
qed simp


text \<open>
  C22. The constructor does not stop at the five-cell line:
  it has already made the first move upwards, so the head is at
  \<open>(4 mod width, (height // 2 - 1) mod height)\<close>, and on a one-row board that move is
  fatal at once.
\<close>

theorem snake_game_init_first_move:
  assumes "rng_ok R" "snake_game_init R w h sc s = Some (Inr (g, s', t))"
  shows "width g = w \<and> height g = h \<and> (game_over g \<longleftrightarrow> h = 1) \<and> (t \<noteq> None \<longleftrightarrow> h \<noteq> 1) \<and>
    last (snake_body g) = (4 mod w, (h div 2 - 1) mod h) \<and>
    (snake_body g = init_body h @ [(4 mod w, (h div 2 - 1) mod h)] \<or>
     snake_body g = tl (init_body h) @ [(4 mod w, (h div 2 - 1) mod h)])"
proof -
  from assms(2) obtain f s1 where mf: "make_food R w h (init_body h) s = Some (Inr (f, s1))"
    and mv: "move R True \<lparr>width = w, height = h, scale = sc, snake_body = init_body h,
       previous_direction = (0, -1), next_direction = (0, -1), game_over = False, food = f\<rparr> s1 =
       Some (Inr (g, s', t))"
    by (rule snake_game_init_Inr)
  note inv0 = snake_game_init_pre_inv [OF assms(1) mf, of sc]
  from make_food_Inr_pos [OF mf] have w: "0 < w" and h: "0 < h" by auto
  have nh: "next_head \<lparr>width = w, height = h, scale = sc, snake_body = init_body h,
       previous_direction = (0, -1), next_direction = (0, -1), game_over = False, food = f\<rparr> =
       (4 mod w, (h div 2 - 1) mod h)"
    by (simp add: next_head_def wrap_def)
  from move_result [OF inv0 _ mv] move_last [OF inv0 _ mv] init_head_in_body [OF w h]
  show ?thesis by (simp add: nh)
qed

text \<open>
  C26. Constructing a game raises exactly when the board has an
  empty axis, with the \<open>ValueError\<close> of the first \<open>make_food\<close>; no other exception
  can escape the constructor.
\<close>

theorem snake_game_init_error:
  "snake_game_init R w h sc s = Some (Inl e) \<longleftrightarrow> e = ValueError \<and> (w \<le> 0 \<or> h \<le> 0)"
proof (cases "make_food R w h (init_body h) s")
  case None
  with make_food_raises [of R w h "init_body h" s ValueError] show ?thesis
    by (auto simp: snake_game_init_def Let_def)
next
  case (Some r)
  show ?thesis
  proof (cases r)
    case (Inl e')
    with Some make_food_raises [of R w h "init_body h" s e'] show ?thesis
      by (auto simp: snake_game_init_def Let_def)
  next
    case (Inr x)
    obtain f s1 where x: "x = (f, s1)" by (cases x)
    from make_food_Inr_pos [of R w h "init_body h" s x] Some Inr have "0 < w" "0 < h" by auto
    with Some Inr x show ?thesis
      using move_no_error [of "\<lparr>width = w, height = h, scale = sc, snake_body = init_body h,
         previous_direction = (0, -1), next_direction = (0, -1), game_over = False, food = f\<rparr>"
         R True s1 e]
      by (auto simp: snake_game_init_def Let_def)
  qed
qed

text \<open>
  C24. The initial body \<open>(x, height//2) for x in range(5)\<close> lies on the
  board exactly when the board is at least five cells wide and not empty: on a narrower
  board the constructor starts with part of the snake off the board.
\<close>

theorem init_body_on_board:
  "set (init_body h) \<subseteq> {c. in_grid w h c} \<longleftrightarrow> 5 \<le> w \<and> 0 < h"
proof -
  have "0 \<le> h div 2 \<and> h div 2 < h \<longleftrightarrow> 0 < h" by linarith
  then show ?thesis by (auto simp: set_init_body in_grid_def)
qed

section \<open>Witnesses\<close>

lemma demo_game_inv: "snake_inv demo_game \<and> steer_inv demo_game"
  by (simp add: snake_inv_def steer_inv_def body_ok_def demo_game_def in_grid_def dir_ok_iff wrap_def)

lemma demo_coil_inv: "snake_inv demo_coil \<and> steer_inv demo_coil"
  by (simp add: snake_inv_def steer_inv_def body_ok_def demo_coil_def in_grid_def dir_ok_iff wrap_def)

lemma demo_eat:
  "move lcg True (demo_game\<lparr>food := (4, 3)\<rparr>) (19570::nat) =
     Some (Inr (demo_game\<lparr>snake_body := [(1, 5), (2, 5), (3, 5), (4, 5), (4, 4), (4, 3)],
                           food := (10, 7)\<rparr>, 42881, Some 23))"
  by (simp add: move_def demo_game_def make_food_unfold draw_pair_def lcg_def lcg_next_def wrap_def Let_def
      schedule_next_def sleeptime_def)

lemma demo_step:
  "move lcg True demo_game (19570::nat) =
     Some (Inr (demo_game\<lparr>snake_body := [(2, 5), (3, 5), (4, 5), (4, 4), (4, 3)]\<rparr>, 15347, Some 59))"
  by (simp add: move_def demo_game_def lcg_def lcg_next_def schedule_next_def sleeptime_def wrap_def Let_def)

lemma demo_bite:
  "move lcg True (demo_coil\<lparr>next_direction := (0, -1)\<rparr>) (0::nat) =
     Some (Inr (demo_coil\<lparr>previous_direction := (0, -1), next_direction := (0, -1),
                 snake_body := [(4, 3), (5, 3), (5, 4), (4, 4), (4, 3)], game_over := True\<rparr>, 0, None))"
  by (simp add: move_def demo_coil_def wrap_def Let_def)

lemma demo_left:
  "on_key lcg ''Left'' demo_game (19570::nat) =
     Some (Inr (demo_game\<lparr>previous_direction := (-1, 0), next_direction := (-1, 0),
                 snake_body := [(2, 5), (3, 5), (4, 5), (4, 4), (3, 4)]\<rparr>, 19570, None))"
  by (simp add: on_key_def move_def demo_game_def binding2direction_def binding2direction_list_def
      opposite_def wrap_def Let_def)

lemma demo_down: "on_key lcg ''Down'' demo_game (19570::nat) = Some (Inr (demo_game, 19570, None))"
  by (simp add: on_key_def demo_game_def binding2direction_def binding2direction_list_def opposite_def)

lemma demo_init_one_row:
  "snake_game_init lcg 15 1 40 (7::nat) =
     Some (Inr (\<lparr>width = 15, height = 1, scale = 40,
       snake_body = [(0, 0), (1, 0), (2, 0), (3, 0), (4, 0), (4, 0)],
       previous_direction = (0, -1), next_direction = (0, -1), game_over = True, food = (7, 0)\<rparr>,
       4085, None))"
  by (simp add: snake_game_init_def init_body_def upt_rec make_food_unfold draw_pair_def lcg_def
      lcg_next_def move_def wrap_def Let_def)

theorem move_growth_witness:
  "length (snake_body (demo_game\<lparr>snake_body := [(1, 5), (2, 5), (3, 5), (4, 5), (4, 4), (4, 3)],
                                 food := (10, 7)\<rparr>)) =
   Suc (length (snake_body (demo_game\<lparr>food := (4, 3)\<rparr>)))"
proof -
  have inv: "snake_inv (demo_game\<lparr>food := (4, 3)\<rparr>)"
    by (simp add: snake_inv_def body_ok_def demo_game_def in_grid_def)
  have "next_head (demo_game\<lparr>food := (4, 3)\<rparr>) = food (demo_game\<lparr>food := (4, 3)\<rparr>)"
    by (simp add: next_head_def demo_game_def wrap_def)
  with move_growth [OF inv _ demo_eat] show ?thesis by (simp add: demo_game_def)
qed

theorem move_collision_witness:
  "game_over (demo_coil\<lparr>previous_direction := (0, -1), next_direction := (0, -1),
       snake_body := [(4, 3), (5, 3), (5, 4), (4, 4), (4, 3)], game_over := True\<rparr>) \<and>
   next_head (demo_coil\<lparr>next_direction := (0, -1)\<rparr>) \<in> set (snake_body demo_coil)"
proof -
  have inv: "snake_inv (demo_coil\<lparr>next_direction := (0, -1)\<rparr>)" using demo_coil_inv by simp
  from move_collision [OF inv _ demo_bite] show ?thesis by (simp add: demo_coil_def)
qed

theorem move_terminates_witness: "move lcg True demo_game (19570::nat) \<noteq> None"
proof -
  have "next_head demo_game \<noteq> food demo_game" by (simp add: next_head_def demo_game_def wrap_def)
  with move_terminates [OF conjunct1 [OF demo_game_inv], of lcg True 19570] show ?thesis
    by (simp add: demo_game_def)
qed

theorem move_timer_witness: "59 * length [(2::int, 5::int), (3, 5), (4, 5), (4, 4), (4, 3)] < 1000"
  using move_timer [OF rng_ok_lcg conjunct1 [OF demo_game_inv] demo_step]
  by (simp add: demo_game_def)

theorem on_key_arbitration_witness:
  "previous_direction (demo_game\<lparr>previous_direction := (-1, 0), next_direction := (-1, 0),
       snake_body := [(2, 5), (3, 5), (4, 5), (4, 4), (3, 4)]\<rparr>) = (-1, 0)"
  using on_key_arbitration [OF conjunct1 [OF demo_game_inv] _ _ demo_left]
  by (simp add: demo_game_def binding2direction_def binding2direction_list_def opposite_def)

theorem on_key_no_neck_bite_witness: "last (snake_body demo_game) \<noteq> last (butlast (snake_body demo_game))"
  using on_key_no_neck_bite [OF conjunct1 [OF demo_game_inv] conjunct2 [OF demo_game_inv] _ _ _ demo_down]
  by (simp add: demo_game_def)

theorem on_key_KeyError_witness: "on_key lcg ''space'' demo_game (0::nat) = Some (Inl KeyError)"
  using on_key_KeyError [OF conjunct1 [OF demo_game_inv], of lcg "''space''" 0 KeyError]
  by (simp add: demo_game_def binding2direction_def binding2direction_list_def)


theorem snake_game_init_first_move_witness:
  "game_over \<lparr>width = 15, height = 1, scale = 40,
       snake_body = [(0, 0), (1, 0), (2, 0), (3, 0), (4, 0), (4, 0)],
       previous_direction = (0, -1), next_direction = (0, -1), game_over = True, food = (7, 0)\<rparr>"
  using snake_game_init_first_move [OF rng_ok_lcg demo_init_one_row] by simp

end
