(* ===== verification/Host.thy ===== *)
theory Host
  imports Game
begin

text \<open>
  The host of the engine: \<open>main\<close> (lines 113--121 of \<^verbatim>\<open>src/snake.py\<close>) builds
  \<open>SnakeGame(root, 15, 10, scale=40)\<close>, binds \<open><Up>\<close>, \<open><Down>\<close>, \<open><Left>\<close> and
  \<open><Right>\<close> to \<open>on_key\<close>, and runs the Tk main loop. The loop runs one callback at a
  time: a key event calls \<open>on_key\<close>, a due timer armed by
  \<open>self.canvas.after(sleeptime, self.move, True)\<close> calls \<open>move(True)\<close>. The host state
  is the game, the generator state and the list of armed timers (their delays, in the
  order they were armed). Which event comes next is up to the user and the clock, so
  the reachable states are an inductive set closed under every event; a run over an
  explicit list of events is \<open>host_run\<close>.
\<close>

section \<open>Bindings\<close>

text \<open>\<open>'<%s>' % binding\<close> for each key of the dict, in its order.\<close>

definition bind_pattern :: "string \<Rightarrow> string" where
  "bind_pattern b = ''<'' @ b @ ''>''"

definition main_bindings :: "string list" where
  "main_bindings = map (\<lambda>b. bind_pattern b) (map fst binding2direction_list)"

text \<open>Tk calls \<open>on_key\<close> for a key event whose pattern was bound; its \<open>keysym\<close> is the key's name.\<close>

definition bound_keysym :: "string \<Rightarrow> bool" where
  "bound_keysym k \<longleftrightarrow> bind_pattern k \<in> set main_bindings"

section \<open>Host state and events\<close>

record 'r tk_host =
  hgame :: game
  hrng :: 'r
  timers :: "nat list"

datatype tk_event = KeyPress string | TimerFires nat

text \<open>The timer a handler armed, as a list of at most one delay.\<close>

definition armed :: "nat option \<Rightarrow> nat list" where
  "armed t = (case t of None \<Rightarrow> [] | Some d \<Rightarrow> [d])"

definition remove_timer :: "nat \<Rightarrow> nat list \<Rightarrow> nat list" where
  "remove_timer i ts = take i ts @ drop (Suc i) ts"

text \<open>Store a handler's result in the host state.\<close>

definition host_apply :: "nat list \<Rightarrow> 'r handler_result \<Rightarrow> 'r tk_host outcome" where
  "host_apply ts r =
     (case r of
        None \<Rightarrow> None
      | Some (Inl e) \<Rightarrow> Some (Inl e)
      | Some (Inr (g, s, t)) \<Rightarrow> Some (Inr \<lparr>hgame = g, hrng = s, timers = ts @ armed t\<rparr>))"

text \<open>
  One callback of the main loop. A key that was not bound and a timer that is not
  armed deliver nothing; a fired timer is removed before its callback runs.
\<close>

fun host_step :: "'r rng \<Rightarrow> tk_event \<Rightarrow> 'r tk_host \<Rightarrow> 'r tk_host outcome" where
  "host_step R (KeyPress k) H =
     (if bound_keysym k then host_apply (timers H) (on_key R k (hgame H) (hrng H))
      else Some (Inr H))"
| "host_step R (TimerFires i) H =
     (if i < length (timers H)
      then host_apply (remove_timer i (timers H)) (move R True (hgame H) (hrng H))
      else Some (Inr H))"

text \<open>\<open>main\<close>, for a board of any size: construct the game; its first move arms the first timer.\<close>

definition host_init :: "'r rng \<Rightarrow> int \<Rightarrow> int \<Rightarrow> int \<Rightarrow> 'r \<Rightarrow> 'r tk_host outcome" where
  "host_init R w h sc s = host_apply [] (snake_game_init R w h sc s)"

definition main :: "'r rng \<Rightarrow> 'r \<Rightarrow> 'r tk_host outcome" where
  "main R s = host_init R 15 10 40 s"

fun host_run :: "'r rng \<Rightarrow> tk_event list \<Rightarrow> 'r tk_host \<Rightarrow> 'r tk_host outcome" where
  "host_run R [] H = Some (Inr H)"
| "host_run R (ev # evs) H =
     (case host_step R ev H of
        None \<Rightarrow> None
      | Some (Inl e) \<Rightarrow> Some (Inl e)
      | Some (Inr H') \<Rightarrow> host_run R evs H')"

inductive reachable :: "'r rng \<Rightarrow> 'r tk_host \<Rightarrow> bool" for R :: "'r rng" where
  start: "host_init R w h sc s = Some (Inr H) \<Longrightarrow> reachable R H"
| step: "reachable R H \<Longrightarrow> host_step R ev H = Some (Inr H') \<Longrightarrow> reachable R H'"

fun_cases host_step_KeyPressE: "host_step R (KeyPress k) H = Some (Inr H')"
  and host_step_TimerFiresE: "host_step R (TimerFires i) H = Some (Inr H')"

section \<open>The host invariant\<close>

text \<open>The engine invariants, and one armed timer while the game runs and at most one after.\<close>

definition host_inv :: "'r tk_host \<Rightarrow> bool" where
  "host_inv H \<longleftrightarrow>
     snake_inv (hgame H) \<and> steer_inv (hgame H) \<and> length (timers H) \<le> 1 \<and>
     (\<not> game_over (hgame H) \<longrightarrow> length (timers H) = 1)"

lemma armed_length [simp]: "length (armed t) = (if t = None then 0 else 1)"
  by (cases t) (simp_all add: armed_def)

lemma length_remove_timer [simp]: "i < length ts \<Longrightarrow> length (remove_timer i ts) = length ts - 1"
  by (simp add: remove_timer_def)

lemma host_apply_Inr:
  "host_apply ts r = Some (Inr H') \<longleftrightarrow>
   (\<exists>g s t. r = Some (Inr (g, s, t)) \<and> H' = \<lparr>hgame = g, hrng = s, timers = ts @ armed t\<rparr>)"
  by (auto simp: host_apply_def split: option.splits sum.splits prod.splits)

lemma bound_keysym_iff: "bound_keysym k \<longleftrightarrow> k \<in> set (map fst binding2direction_list)"
  by (auto simp: bound_keysym_def main_bindings_def bind_pattern_def)

lemma bound_keysym_binding: "bound_keysym k \<longleftrightarrow> binding2direction k \<noteq> None"
proof -
  have "k \<in> dom binding2direction \<longleftrightarrow> binding2direction k \<noteq> None" by blast
  then show ?thesis by (simp add: bound_keysym_iff dom_binding2direction)
qed

lemma bound_keysym_direction: "bound_keysym k \<Longrightarrow> binding2direction k \<noteq> None"
  by (simp add: bound_keysym_binding)

lemma on_key_no_error:
  assumes "snake_inv g" "binding2direction k \<noteq> None"
  shows "on_key R k g s \<noteq> Some (Inl e)"
proof (cases "game_over g")
  case False
  with assms(1) have "0 < width g" "0 < height g" "snake_body g \<noteq> []"
    by (auto dest: snake_inv_running)
  with False assms(2) show ?thesis
    using move_no_error [of "g\<lparr>next_direction := d\<rparr>" R False s e for d]
    by (auto simp: on_key_def split: option.splits)
qed simp

text \<open>No callback raises on a state satisfying the host invariant.\<close>

lemma host_step_no_error:
  assumes "host_inv H"
  shows "host_step R ev H \<noteq> Some (Inl e)"
proof -
  from assms have inv: "snake_inv (hgame H)" by (simp add: host_inv_def)
  then have "0 < width (hgame H)" "0 < height (hgame H)" "snake_body (hgame H) \<noteq> []"
    by (auto simp: snake_inv_def)
  then show ?thesis
    using on_key_no_error [OF inv, of _ R "hrng H" e] bound_keysym_direction
      move_no_error [of "hgame H" R True "hrng H" e]
    by (cases ev) (auto simp: host_apply_def split: option.splits sum.splits prod.splits)
qed

lemma host_init_inv:
  assumes "rng_ok R" "host_init R w h sc s = Some (Inr H)"
  shows "host_inv H"
proof -
  from assms(2) obtain g s' t where init: "snake_game_init R w h sc s = Some (Inr (g, s', t))"
    and H: "H = \<lparr>hgame = g, hrng = s', timers = armed t\<rparr>"
    by (auto simp: host_init_def host_apply_Inr)
  from snake_game_init_inv [OF assms(1) init] H show ?thesis
    by (auto simp: host_inv_def)
qed

lemma host_key_inv:
  assumes "rng_ok R" "host_inv H" "host_step R (KeyPress k) H = Some (Inr H')"
  shows "host_inv H'"
proof (cases "bound_keysym k")
    case True
    with assms(3) have "host_apply (timers H) (on_key R k (hgame H) (hrng H)) = Some (Inr H')"
      by (auto elim: host_step_KeyPressE)
    then obtain g s t where ok: "on_key R k (hgame H) (hrng H) = Some (Inr (g, s, t))"
      and H': "H' = \<lparr>hgame = g, hrng = s, timers = timers H @ armed t\<rparr>"
      by (auto simp: host_apply_Inr)
    from assms(2) have inv: "snake_inv (hgame H)" and st: "steer_inv (hgame H)"
      by (simp_all add: host_inv_def)
    from on_key_steer [OF inv st ok] have "steer_inv g" "t = None" by simp_all
    moreover have "game_over (hgame H) \<Longrightarrow> game_over g" using ok by simp
    ultimately show ?thesis using on_key_inv [OF assms(1) inv ok] assms(2) H'
      by (auto simp: host_inv_def)
qed (use assms in \<open>auto elim: host_step_KeyPressE\<close>)

lemma host_timer_inv:
  assumes "rng_ok R" "host_inv H" "host_step R (TimerFires i) H = Some (Inr H')"
  shows "host_inv H'"
proof (cases "i < length (timers H)")
    case True
    with assms(3) have "host_apply (remove_timer i (timers H)) (move R True (hgame H) (hrng H)) =
        Some (Inr H')" by (auto elim: host_step_TimerFiresE)
    then obtain g s t where mv: "move R True (hgame H) (hrng H) = Some (Inr (g, s, t))"
      and H': "H' = \<lparr>hgame = g, hrng = s, timers = remove_timer i (timers H) @ armed t\<rparr>"
      by (auto simp: host_apply_Inr)
    from assms(2) have inv: "snake_inv (hgame H)" and st: "steer_inv (hgame H)"
      and one: "length (timers H) \<le> 1" by (simp_all add: host_inv_def)
    with True have empty: "length (remove_timer i (timers H)) = 0" by simp
    have "steer_inv g \<and> (t \<noteq> None \<longleftrightarrow> \<not> game_over g)"
    proof (cases "game_over (hgame H)")
      case True
      with mv st show ?thesis by simp
    next
      case False
      from st have "dir_ok (next_direction (hgame H))" by (rule steer_inv_next_dir)
      from move_steer [OF inv False this mv] move_result [OF inv False mv] show ?thesis by simp
    qed
    with move_inv [OF assms(1) inv mv] H' empty show ?thesis
      by (auto simp: host_inv_def)
qed (use assms in \<open>auto elim: host_step_TimerFiresE\<close>)

lemma host_step_inv:
  "rng_ok R \<Longrightarrow> host_inv H \<Longrightarrow> host_step R ev H = Some (Inr H') \<Longrightarrow> host_inv H'"
  by (cases ev) (auto intro: host_key_inv host_timer_inv)

lemma reachable_host_inv:
  assumes "rng_ok R" "reachable R H"
  shows "host_inv H"
  using assms(2)
proof (induction rule: reachable.induct)
  case (start w h sc s H)
  with assms(1) show ?case by (rule host_init_inv)
next
  case (step H ev H')
  with assms(1) show ?case by (blast intro: host_step_inv)
qed

end
