(* ===== verification/Render.thy ===== *)
theory Render
  imports Game
begin

text \<open>
  What \<open>SnakeGame.refresh\<close> (lines 101--110 of \<^verbatim>\<open>src/snake.py\<close>) shows: the status
  bar text \<open>"Score: " + str(len(self.snake_body))\<close> and, for every rectangle of
  \<open>item_ids\<close> in insertion order, its fill colour. Drawing changes no game state, so
  \<open>refresh\<close> is a function from the game to this picture. \<open>str_nat\<close> is Python's
  \<open>str\<close> on a non-negative int; \<open>read_decimal\<close> reads such a text back (Python's
  \<open>int\<close> on a string of digits) and is used only to state what the text says. The
  rectangles themselves, created by \<open>__init__\<close> (lines 32--44), are \<open>item_ids\<close>, and
  they tile the canvas.
\<close>

section \<open>The picture\<close>

datatype color = Red | Black | White

text \<open>The Tk colour names the code passes as \<open>fill\<close>.\<close>

definition color_name :: "color \<Rightarrow> string" where
  "color_name c = (case c of Red \<Rightarrow> ''red'' | Black \<Rightarrow> ''black'' | White \<Rightarrow> ''white'')"

text \<open>The \<open>if\<close>/\<open>elif\<close>/\<open>else\<close> of the loop body, in the source's order.\<close>

definition cell_color :: "game \<Rightarrow> cell \<Rightarrow> color" where
  "cell_color g coords =
     (if coords = food g then Red
      else if coords \<in> set (snake_body g) then Black
      else White)"

fun str_nat :: "nat \<Rightarrow> string" where
  "str_nat n = (if n < 10 then [char_of (48 + n)] else str_nat (n div 10) @ [char_of (48 + n mod 10)])"

declare str_nat.simps [simp del]

definition status_text :: "game \<Rightarrow> string" where
  "status_text g = ''Score: '' @ str_nat (length (snake_body g))"

text \<open>
  The rectangles of \<open>__init__\<close> (lines 38--44): \<open>item_ids\<close> maps each cell, in the
  order of the two loops, to the rectangle created for it. Tk's item number is a library
  value, so the model keeps the rectangle's corners \<open>(x_start, y_start, x_end, y_end)\<close>
  in its place. The canvas is \<open>width*scale\<close> by \<open>height*scale\<close> pixels (line 33).
\<close>

type_synonym rect = "int \<times> int \<times> int \<times> int"

definition rect_coords :: "int \<Rightarrow> cell \<Rightarrow> rect" where
  "rect_coords sc c = (fst c * sc, snd c * sc, (fst c + 1) * sc, (snd c + 1) * sc)"

definition item_ids :: "int \<Rightarrow> int \<Rightarrow> int \<Rightarrow> (cell \<times> rect) list" where
  "item_ids w h sc = map (\<lambda>c. (c, rect_coords sc c)) (grid_cells w h)"

definition canvas_size :: "int \<Rightarrow> int \<Rightarrow> int \<Rightarrow> int \<times> int" where
  "canvas_size w h sc = (w * sc, h * sc)"

text \<open>A pixel lies in a rectangle when it is in the half-open box of its corners.\<close>

definition inside :: "int \<times> int \<Rightarrow> rect \<Rightarrow> bool" where
  "inside p r \<longleftrightarrow> (case r of (x0, y0, x1, y1) \<Rightarrow> x0 \<le> fst p \<and> fst p < x1 \<and> y0 \<le> snd p \<and> snd p < y1)"

text \<open>\<open>refresh\<close> walks \<open>item_ids.items()\<close>: the colour of each key's rectangle.\<close>

definition refresh :: "game \<Rightarrow> string \<times> (cell \<times> color) list" where
  "refresh g = (status_text g,
     map (\<lambda>c. (c, cell_color g c)) (map fst (item_ids (width g) (height g) (scale g))))"

definition is_digit :: "char \<Rightarrow> bool" where
  "is_digit c \<longleftrightarrow> 48 \<le> (of_char c :: nat) \<and> (of_char c :: nat) < 58"

definition read_decimal :: "string \<Rightarrow> nat" where
  "read_decimal s = foldl (\<lambda>acc c. 10 * acc + (of_char c - 48)) 0 s"

text \<open>
  The overlay \<open>move\<close> draws on the fatal move (lines 84--87): \<open>create_text\<close> at the
  centre of the canvas, \<open>width * scale // 2, height * scale // 2\<close>, with the text
  \<open>"Game Over :("\<close> (the font, colour and justification are not modelled).
  \<open>move_texts\<close> follows \<open>move\<close>'s control flow up to that call and gives the texts it
  creates, with the exceptions \<open>move\<close> would raise on the way.
\<close>

definition game_over_text :: "game \<Rightarrow> int \<times> int \<times> string" where
  "game_over_text g = (width g * scale g div 2, height g * scale g div 2, ''Game Over :('')"

definition move_texts :: "game \<Rightarrow> error + (int \<times> int \<times> string) list" where
  "move_texts g =
     (if game_over g then Inr []
      else (case py_last (snake_body g) of
        Inl e \<Rightarrow> Inl e
      | Inr last_xy \<Rightarrow>
          (case step_cell (width g) (height g) last_xy (next_direction g) of
             Inl e \<Rightarrow> Inl e
           | Inr xy \<Rightarrow> Inr (if xy \<in> set (snake_body g) then [game_over_text g] else []))))"


section \<open>Lemmas\<close>

lemma item_ids_keys [simp]: "map fst (item_ids w h sc) = grid_cells w h"
  by (simp add: item_ids_def comp_def)

lemma inside_rect_coords:
  "0 < sc \<Longrightarrow> inside p (rect_coords sc c) \<longleftrightarrow> c = (fst p div sc, snd p div sc)"
proof -
  assume sc: "0 < sc"
  obtain x y where c: "c = (x, y)" by fastforce
  have "inside p (rect_coords sc c) \<longleftrightarrow>
      (x * sc \<le> fst p \<and> fst p < (x + 1) * sc) \<and> (y * sc \<le> snd p \<and> snd p < (y + 1) * sc)"
    by (auto simp: inside_def rect_coords_def c)
  then show ?thesis by (simp only: div_cell_iff [OF sc] c) auto
qed

lemma of_char_digit: "(d::nat) < 10 \<Longrightarrow> (of_char (char_of (48 + d) :: char) :: nat) = 48 + d"
  by (simp add: of_char_of)

lemma is_digit_char: "(d::nat) < 10 \<Longrightarrow> is_digit (char_of (48 + d))"
  by (simp add: is_digit_def of_char_digit)

lemma read_decimal_snoc: "read_decimal (s @ [c]) = 10 * read_decimal s + (of_char c - 48)"
  by (simp add: read_decimal_def)

lemma str_nat_nonempty [simp]: "str_nat n \<noteq> []"
  by (subst str_nat.simps) simp

lemma str_nat_digits: "\<forall>c \<in> set (str_nat n). is_digit c"
proof (induction n rule: str_nat.induct)
  case (1 n)
  then show ?case by (subst str_nat.simps) (simp add: is_digit_char)
qed

lemma read_str_nat: "read_decimal (str_nat n) = n"
proof (induction n rule: str_nat.induct)
  case (1 n)
  show ?case
  proof (cases "n < 10")
    case True
    then show ?thesis by (subst str_nat.simps) (simp add: read_decimal_def of_char_digit)
  next
    case False
    with "1.IH" show ?thesis
      by (subst str_nat.simps) (simp add: read_decimal_snoc of_char_digit)
  qed
qed

lemma cell_color_Red: "cell_color g c = Red \<longleftrightarrow> c = food g"
  by (simp add: cell_color_def)

lemma cell_color_Black: "cell_color g c = Black \<longleftrightarrow> c \<noteq> food g \<and> c \<in> set (snake_body g)"
  by (simp add: cell_color_def)

section \<open>What the picture shows\<close>

text \<open>
  C28. On a game satisfying the engine invariant, \<open>refresh\<close> colours
  every board cell exactly once, in \<open>item_ids\<close> order; exactly one rectangle is red,
  the food's; and the black rectangles are exactly the body cells that lie on the board.
\<close>

theorem refresh_picture:
  assumes "snake_inv g"
  shows "map fst (snd (refresh g)) = grid_cells (width g) (height g) \<and>
         distinct (map fst (snd (refresh g))) \<and>
         filter (\<lambda>p. snd p = Red) (snd (refresh g)) = [(food g, Red)] \<and>
         {c. (c, Black) \<in> set (snd (refresh g))} =
           set (snake_body g) \<inter> {c. in_grid (width g) (height g) c}"
proof -
  let ?cs = "grid_cells (width g) (height g)"
  from assms have food: "food g \<in> set ?cs" and off: "food g \<notin> set (snake_body g)"
    by (simp_all add: snake_inv_def set_grid_cells)
  have cells: "map fst (snd (refresh g)) = ?cs"
    by (simp add: refresh_def comp_def)
  have "filter (\<lambda>p. snd p = Red) (snd (refresh g)) =
        map (\<lambda>c. (c, cell_color g c)) (filter (\<lambda>c. c = food g) ?cs)"
    by (simp add: refresh_def filter_map comp_def cell_color_Red)
  also have "\<dots> = [(food g, Red)]"
    using filter_eq_single [OF distinct_grid_cells food] by (simp add: cell_color_def)
  finally have red: "filter (\<lambda>p. snd p = Red) (snd (refresh g)) = [(food g, Red)]" .
  have "{c. (c, Black) \<in> set (snd (refresh g))} = {c \<in> set ?cs. cell_color g c = Black}"
    by (auto simp: refresh_def)
  also have "\<dots> = set (snake_body g) \<inter> {c. in_grid (width g) (height g) c}"
    using off by (auto simp: set_grid_cells cell_color_Black)
  finally show ?thesis using cells red by (simp add: distinct_grid_cells)
qed

text \<open>
  C31. The rectangles of \<open>item_ids\<close> tile the canvas: for a positive scale,
  every pixel of the \<open>width*scale\<close> by \<open>height*scale\<close> canvas lies in exactly one of
  them, the rectangle of the cell \<open>(x // scale, y // scale)\<close>.
\<close>

theorem item_ids_tile:
  assumes "0 < sc" "0 \<le> fst p" "fst p < fst (canvas_size w h sc)"
    and "0 \<le> snd p" "snd p < snd (canvas_size w h sc)"
  shows "filter (\<lambda>(c, r). inside p r) (item_ids w h sc) =
           [((fst p div sc, snd p div sc), rect_coords sc (fst p div sc, snd p div sc))]"
proof -
  let ?q = "(fst p div sc, snd p div sc)"
  from assms have "in_grid w h ?q"
    using div_in_range [OF assms(1)] by (simp add: canvas_size_def in_grid_def)
  then have q: "?q \<in> set (grid_cells w h)" by (simp add: set_grid_cells)
  have "filter (\<lambda>(c, r). inside p r) (item_ids w h sc) =
        map (\<lambda>c. (c, rect_coords sc c)) (filter (\<lambda>c. c = ?q) (grid_cells w h))"
    by (simp add: item_ids_def filter_map comp_def inside_rect_coords [OF assms(1)])
  also have "\<dots> = [(?q, rect_coords sc ?q)]"
    by (simp add: filter_eq_single [OF distinct_grid_cells q])
  finally show ?thesis .
qed

text \<open>
  C29. The status bar reads \<open>Score: \<close> followed by a non-empty string
  of decimal digits whose value is the length of the body.
\<close>

theorem status_text_score:
  "\<exists>ds. status_text g = ''Score: '' @ ds \<and> ds \<noteq> [] \<and> (\<forall>c \<in> set ds. is_digit c) \<and>
        read_decimal ds = length (snake_body g)"
  by (simp add: status_text_def str_nat_digits read_str_nat)

text \<open>
  C30. The \<open>Game Over :(\<close> overlay: a move of a game satisfying the
  engine invariant draws exactly one text, the overlay, when it ends the game and none
  otherwise; on a board with a positive scale the overlay is anchored on the canvas.
\<close>

theorem move_game_over_text:
  assumes "snake_inv g" "move R b g s = Some (Inr (g', s', t))"
  shows "move_texts g = Inr (if \<not> game_over g \<and> game_over g' then [game_over_text g] else []) \<and>
         (0 < scale g \<longrightarrow> 0 \<le> fst (game_over_text g) \<and>
            fst (game_over_text g) < fst (canvas_size (width g) (height g) (scale g)) \<and>
            0 \<le> fst (snd (game_over_text g)) \<and>
            fst (snd (game_over_text g)) < snd (canvas_size (width g) (height g) (scale g)))"
proof -
  from assms(1) have w: "0 < width g" and h: "0 < height g" and ne: "snake_body g \<noteq> []"
    by (auto simp: snake_inv_def)
  have "move_texts g = Inr (if \<not> game_over g \<and> game_over g' then [game_over_text g] else [])"
  proof (cases "game_over g")
    case False
    with move_result [OF assms(1) False assms(2)] w h ne show ?thesis
      by (simp add: move_texts_def next_head_def)
  qed (simp add: move_texts_def)
  moreover have "0 < scale g \<longrightarrow> 0 \<le> width g * scale g div 2 \<and> width g * scale g div 2 < width g * scale g \<and>
      0 \<le> height g * scale g div 2 \<and> height g * scale g div 2 < height g * scale g"
    using half_in_range [of "width g * scale g"] half_in_range [of "height g * scale g"] w h
    by simp
  ultimately show ?thesis by (simp add: game_over_text_def canvas_size_def)
qed

section \<open>Witnesses\<close>

theorem refresh_picture_witness:
  "filter (\<lambda>p. snd p = Red) (snd (refresh demo_game)) = [((7, 8), Red)] \<and>
   length (snd (refresh demo_game)) = 150"
proof -
  have sel: "width demo_game = 15" "height demo_game = 10" "food demo_game = (7, 8)"
    by (simp_all add: demo_game_def)
  have "map fst (snd (refresh demo_game)) = grid_cells 15 10"
    and red: "filter (\<lambda>p. snd p = Red) (snd (refresh demo_game)) = [((7, 8), Red)]"
    using refresh_picture [OF demo_game_inv [THEN conjunct1]] unfolding sel by blast+
  then have "length (snd (refresh demo_game)) = length (grid_cells 15 10)"
    by (metis length_map)
  with red show ?thesis by (simp add: length_grid_cells)
qed

theorem status_text_score_witness:
  "\<exists>ds. status_text demo_game = ''Score: '' @ ds \<and> ds \<noteq> [] \<and> read_decimal ds = 5"
  using status_text_score [of demo_game] by (auto simp: demo_game_def)

theorem item_ids_tile_witness:
  "filter (\<lambda>(c, r). inside (130, 85) r) (item_ids 15 10 40) = [((3, 2), (120, 80, 160, 120))]"
  using item_ids_tile [of 40 "(130, 85)" 15 10] by (simp add: canvas_size_def rect_coords_def)

theorem move_game_over_text_witness:
  "move_texts (demo_coil\<lparr>next_direction := (0, -1)\<rparr>) = Inr [(300, 200, ''Game Over :('')]"
proof -
  have inv: "snake_inv (demo_coil\<lparr>next_direction := (0, -1)\<rparr>)"
    using demo_coil_inv by (simp add: snake_inv_def)
  from move_game_over_text [OF inv demo_bite] show ?thesis
    by (simp add: demo_coil_def game_over_text_def)
qed

end
