(* ===== verification/Engine_Spec.thy ===== *)
theory Engine_Spec
  imports Game
begin

text \<open>
  The abstract engine of the specification (section 4.4 of \<^verbatim>\<open>spec.md\<close>): a state of
  body, the two direction fields, food and the terminal flag, with \<open>advance\<close> and
  \<open>setDirection\<close> as relations, the food respawn left open to any free cell on the
  board. \<open>abs_game\<close> forgets the board size, the scale, the generator and the timers of
  the code's state; the refinement theorems say that every return of \<open>move\<close>,
  \<open>on_key\<close> and the constructor is a step the specification allows.
\<close>

record spec_state =
  s_body :: "cell list"
  s_prev :: direction
  s_pending :: direction
  s_food :: cell
  s_over :: bool

text \<open>\<open>advance()\<close>, steps 1--4, on a \<open>w\<close> by \<open>h\<close> board.\<close>

inductive spec_advance :: "int \<Rightarrow> int \<Rightarrow> spec_state \<Rightarrow> spec_state \<Rightarrow> bool"
  for w h :: int where
  over: "s_over S \<Longrightarrow> spec_advance w h S S"
| collide: "\<not> s_over S \<Longrightarrow> n = wrap w h (last (s_body S)) (s_pending S) \<Longrightarrow> n \<in> set (s_body S) \<Longrightarrow>
    spec_advance w h S (S\<lparr>s_prev := s_pending S, s_body := s_body S @ [n], s_over := True\<rparr>)"
| eat: "\<not> s_over S \<Longrightarrow> n = wrap w h (last (s_body S)) (s_pending S) \<Longrightarrow> n \<notin> set (s_body S) \<Longrightarrow>
    n = s_food S \<Longrightarrow> f \<notin> set (s_body S @ [n]) \<Longrightarrow> in_grid w h f \<Longrightarrow>
    spec_advance w h S (S\<lparr>s_prev := s_pending S, s_body := s_body S @ [n], s_food := f\<rparr>)"
| step: "\<not> s_over S \<Longrightarrow> n = wrap w h (last (s_body S)) (s_pending S) \<Longrightarrow> n \<notin> set (s_body S) \<Longrightarrow>
    n \<noteq> s_food S \<Longrightarrow>
    spec_advance w h S (S\<lparr>s_prev := s_pending S, s_body := tl (s_body S @ [n])\<rparr>)"

text \<open>\<open>setDirection(d)\<close>: a no-op after game over or for the reverse of \<open>s_prev\<close>;
  otherwise \<open>d\<close> becomes pending and an \<open>advance()\<close> runs at once.\<close>

inductive spec_set_direction :: "int \<Rightarrow> int \<Rightarrow> direction \<Rightarrow> spec_state \<Rightarrow> spec_state \<Rightarrow> bool"
  for w h :: int and d :: direction where
  over: "s_over S \<Longrightarrow> spec_set_direction w h d S S"
| reject: "\<not> s_over S \<Longrightarrow> d = opposite (s_prev S) \<Longrightarrow> spec_set_direction w h d S S"
| accept: "\<not> s_over S \<Longrightarrow> d \<noteq> opposite (s_prev S) \<Longrightarrow>
    spec_advance w h (S\<lparr>s_pending := d\<rparr>) S' \<Longrightarrow> spec_set_direction w h d S S'"

text \<open>\<open>new(width, height)\<close>: five cells on row \<open>height // 2\<close>, direction Up, food anywhere
  on the board off the body, running.\<close>

inductive spec_new :: "int \<Rightarrow> int \<Rightarrow> spec_state \<Rightarrow> bool" for w h :: int where
  "f \<notin> set (init_body h) \<Longrightarrow> in_grid w h f \<Longrightarrow>
   spec_new w h \<lparr>s_body = init_body h, s_prev = (0, -1), s_pending = (0, -1), s_food = f,
                 s_over = False\<rparr>"

text \<open>The states the specification's engine can reach on a \<open>w\<close> by \<open>h\<close> board, with
  the four directions an InputPort delivers.\<close>

inductive spec_reachable :: "int \<Rightarrow> int \<Rightarrow> spec_state \<Rightarrow> bool" for w h :: int where
  new: "spec_new w h S \<Longrightarrow> spec_reachable w h S"
| advance: "spec_reachable w h S \<Longrightarrow> spec_advance w h S S' \<Longrightarrow> spec_reachable w h S'"
| set_direction: "spec_reachable w h S \<Longrightarrow> dir_ok d \<Longrightarrow> spec_set_direction w h d S S' \<Longrightarrow>
    spec_reachable w h S'"

definition abs_game :: "game \<Rightarrow> spec_state" where
  "abs_game g = \<lparr>s_body = snake_body g, s_prev = previous_direction g,
                 s_pending = next_direction g, s_food = food g, s_over = game_over g\<rparr>"


section \<open>Refinement\<close>

lemma abs_game_update:
  "abs_game (g\<lparr>previous_direction := p, snake_body := b\<rparr>) =
     (abs_game g)\<lparr>s_prev := p, s_body := b\<rparr>"
  "abs_game (g\<lparr>next_direction := d\<rparr>) = (abs_game g)\<lparr>s_pending := d\<rparr>"
  by (simp_all add: abs_game_def)

lemma move_advance:
  assumes "rng_ok R" "snake_inv g" "move R b g s = Some (Inr (g', s', t))"
  shows "spec_advance (width g) (height g) (abs_game g) (abs_game g') \<and>
         width g' = width g \<and> height g' = height g"
proof (cases "game_over g")
  case True
  with assms(3) have "g' = g" by simp
  with True show ?thesis by (simp add: spec_advance.over abs_game_def)
next
  case False
  let ?n = "next_head g"
  have run: "\<not> s_over (abs_game g)" and n: "?n = wrap (width g) (height g)
      (last (s_body (abs_game g))) (s_pending (abs_game g))"
    using False by (simp_all add: abs_game_def next_head_def)
  have g': "snake_inv g'" by (rule move_inv [OF assms])
  from assms(3,2) False show ?thesis
  proof (cases rule: move_Inr_cases)
    case collide
    then have "abs_game g' = (abs_game g)\<lparr>s_prev := s_pending (abs_game g),
        s_body := s_body (abs_game g) @ [?n], s_over := True\<rparr>" by (simp add: abs_game_def)
    with collide(1) show ?thesis using spec_advance.collide [OF run n] collide(2)
      by (simp add: abs_game_def)
  next
    case (eat f s1)
    from eat g' have new: "f \<notin> set (s_body (abs_game g) @ [?n])" "in_grid (width g) (height g) f"
      by (simp_all add: snake_inv_def abs_game_def)
    from eat(1,2) have free: "?n \<notin> set (s_body (abs_game g))" "?n = s_food (abs_game g)"
      by (simp_all add: abs_game_def)
    have "abs_game g' = (abs_game g)\<lparr>s_prev := s_pending (abs_game g),
        s_body := s_body (abs_game g) @ [?n], s_food := f\<rparr>" using eat(4) by (simp add: abs_game_def)
    with spec_advance.eat [OF run n free new] eat(4) show ?thesis by simp
  next
    case step
    then have "abs_game g' = (abs_game g)\<lparr>s_prev := s_pending (abs_game g),
        s_body := tl (s_body (abs_game g) @ [?n])\<rparr>" by (simp add: abs_game_def)
    with step(1,2,3) show ?thesis using spec_advance.step [OF run n]
      by (simp add: abs_game_def)
  qed
qed

text \<open>
  C8. Every return of \<open>move\<close> on a game satisfying the engine invariant is
  an \<open>advance()\<close> of the specification on the same board: a no-op after game over, a
  fatal collision, an eating step whose new food is any free board cell, or a plain step.
\<close>

theorem move_refines:
  assumes "rng_ok R" "snake_inv g" "move R b g s = Some (Inr (g', s', t))"
  shows "spec_advance (width g) (height g) (abs_game g) (abs_game g') \<and>
         width g' = width g \<and> height g' = height g"
  using move_advance [OF assms] .

lemma on_key_set_direction:
  assumes "rng_ok R" "snake_inv g" "binding2direction k = Some d"
    and "on_key R k g s = Some (Inr (g', s', t))"
  shows "spec_set_direction (width g) (height g) d (abs_game g) (abs_game g') \<and>
         width g' = width g \<and> height g' = height g \<and> t = None"
proof (cases "game_over g")
  case True
  with assms(4) have "g' = g" "t = None" by simp_all
  with True show ?thesis by (simp add: spec_set_direction.over abs_game_def)
next
  case False
  then have run: "\<not> s_over (abs_game g)" by (simp add: abs_game_def)
  from assms(4,2) False show ?thesis
  proof (cases rule: on_key_cases)
    case (rejected d')
    with assms(3) have "d = opposite (s_prev (abs_game g))" by (simp add: abs_game_def)
    from spec_set_direction.reject [OF run this] rejected show ?thesis by simp
  next
    case (accepted d')
    with assms(3) have "d' = d" by simp
    with accepted have rev: "d \<noteq> opposite (s_prev (abs_game g))" by (simp add: abs_game_def)
    from accepted \<open>d' = d\<close> move_advance [OF assms(1) accepted(4,3)]
    have "spec_advance (width g) (height g) ((abs_game g)\<lparr>s_pending := d\<rparr>) (abs_game g')"
      "width g' = width g" "height g' = height g" by (simp_all add: abs_game_update)
    with spec_set_direction.accept [OF run rev] accepted(6) show ?thesis by simp
  qed
qed

text \<open>
  C9. Every return of \<open>on_key\<close> for a bound key on a game satisfying the
  engine invariant is a \<open>setDirection\<close> of the specification with that key's direction,
  and arms no timer.
\<close>

theorem on_key_refines:
  assumes "rng_ok R" "snake_inv g" "binding2direction k = Some d"
    and "on_key R k g s = Some (Inr (g', s', t))"
  shows "spec_set_direction (width g) (height g) d (abs_game g) (abs_game g') \<and> t = None"
  using on_key_set_direction [OF assms] by simp

text \<open>
  C23. The constructor builds a state the specification's
  \<open>new(width, height)\<close> allows and then returns after one \<open>advance()\<close> of it: the
  constructed game is one tick past \<open>new\<close>, not \<open>new\<close> itself.
\<close>

theorem snake_game_init_refines:
  assumes "rng_ok R" "snake_game_init R w h sc s = Some (Inr (g, s', t))"
  shows "\<exists>S0. spec_new w h S0 \<and> spec_advance w h S0 (abs_game g) \<and> width g = w \<and> height g = h"
proof -
  from assms(2) obtain f s1 where mf: "make_food R w h (init_body h) s = Some (Inr (f, s1))"
    and mv: "move R True \<lparr>width = w, height = h, scale = sc, snake_body = init_body h,
       previous_direction = (0, -1), next_direction = (0, -1), game_over = False, food = f\<rparr> s1 =
       Some (Inr (g, s', t))"
    by (rule snake_game_init_Inr)
  note inv0 = snake_game_init_pre_inv [OF assms(1) mf, of sc]
  then have "spec_new w h (abs_game \<lparr>width = w, height = h, scale = sc, snake_body = init_body h,
       previous_direction = (0, -1), next_direction = (0, -1), game_over = False, food = f\<rparr>)"
    by (simp add: snake_inv_def abs_game_def spec_new.simps)
  with move_advance [OF assms(1) inv0 mv] show ?thesis by auto
qed

section \<open>Witnesses\<close>

theorem move_refines_witness:
  "spec_advance (width demo_game) (height demo_game) (abs_game demo_game)
     (abs_game (demo_game\<lparr>snake_body := [(2, 5), (3, 5), (4, 5), (4, 4), (4, 3)]\<rparr>))"
  using move_refines [OF rng_ok_lcg conjunct1 [OF demo_game_inv] demo_step] by simp

theorem on_key_refines_witness:
  "spec_set_direction (width demo_game) (height demo_game) (-1, 0) (abs_game demo_game)
     (abs_game (demo_game\<lparr>previous_direction := (-1, 0), next_direction := (-1, 0),
                 snake_body := [(2, 5), (3, 5), (4, 5), (4, 4), (3, 4)]\<rparr>))"
  using on_key_refines [OF rng_ok_lcg conjunct1 [OF demo_game_inv] _ demo_left]
  by (simp add: binding2direction_def binding2direction_list_def)

theorem snake_game_init_refines_witness:
  "\<exists>S0. spec_new 15 1 S0 \<and> spec_advance 15 1 S0
     (abs_game \<lparr>width = 15, height = 1, scale = 40,
       snake_body = [(0, 0), (1, 0), (2, 0), (3, 0), (4, 0), (4, 0)],
       previous_direction = (0, -1), next_direction = (0, -1), game_over = True, food = (7, 0)\<rparr>)"
  using snake_game_init_refines [OF rng_ok_lcg demo_init_one_row] by simp

end
