(* ===== verification/Spec2Isabelle.thy ===== *)
theory Spec2Isabelle
  imports Host Render Engine_Spec
begin

text \<open>
  \<^bold>\<open>A verified model of Akuli/snake.\<close>

  The program, \<^verbatim>\<open>src/snake.py\<close>, is a Tk snake game on a wrap-around board. Its parts
  and how they interact:
  \<^item> the module table \<open>binding2direction\<close> maps key names to unit steps;
  \<^item> class \<open>SnakeGame\<close> keeps the game state (board size, the body as a deque from tail
    to head, the two direction fields, \<open>game_over\<close>, the food cell) and has three
    handlers: \<open>__init__\<close> builds the state and makes the first move, \<open>move\<close> advances
    the snake one cell and re-arms the Tk timer when asked to, \<open>on_key\<close> turns a key
    press into an immediate move;
  \<^item> \<open>make_food\<close> draws random cells until one is off the snake;
  \<^item> \<open>refresh\<close> paints the board and the status bar, \<open>main\<close> binds the keys and runs
    the Tk event loop, which calls \<open>on_key\<close> for key events and \<open>move\<close> for timers.

  \<^bold>\<open>Theories.\<close>
  \<^item> \<open>Prelude\<close>: cells and directions as pairs of \<open>int\<close>, the exceptions of the program
    as the datatype \<open>error\<close>, the result type \<open>'a outcome = (error + 'a) option\<close>
    (\<open>None\<close>: never returns), Python's \<open>xs[-1]\<close> and \<open>%\<close>, shared list lemmas.
  \<^item> \<open>Grid\<close>: \<open>binding2direction\<close> (the dict, in insertion order), \<open>opposite\<close>
    (\<open>on_key\<close>, lines 64--65), the code's step \<open>step_cell\<close> (lines 75--77) and the
    specification's \<open>wrap\<close>, which it refines on a non-empty board, and
    \<open>grid_cells\<close>, the cells in the order of the \<open>item_ids\<close> loop. Lemmas: a step stays
    on the board; a step and a non-reversing second step never return to the start on a
    board of at least 3 by 3; \<open>step_cell_spec\<close> gives the code's step on every board,
    the \<open>ZeroDivisionError\<close> of an empty axis included.
  \<^item> \<open>Random_Source\<close>: Python's \<open>random\<close> module is a library, so it is an interface:
    a record \<open>'r rng\<close> of \<open>randbelow\<close> (for \<open>randrange(n)\<close>, \<open>n > 0\<close>) and
    \<open>random53\<close> (the 53-bit numerator of \<open>random()\<close>), over a hidden state \<open>'r\<close>;
    \<open>py_randrange\<close> adds the \<open>ValueError\<close> of an empty range; \<open>rng_ok\<close> says the
    draws are in range, which is all the theorems assume; \<open>lcg\<close> is a concrete
    generator used to run the model in witnesses.
  \<^item> \<open>Food\<close>: \<open>make_food\<close> (lines 49--56) as a \<^theory_text>\<open>partial_function (option)\<close>,
    because the loop really may not end. Its theorems: what it returns is the first draw
    off the snake (\<open>make_food_first_free\<close>), always on the board and off the snake
    (\<open>make_food_sound\<close>); it returns at all exactly when some draw is free; on a full
    board it never returns (\<open>make_food_full_board\<close>, the source's FIXME); it raises
    exactly on an empty axis. \<open>food_of_draws\<close> is the same loop over a finite list
    of draws: \<open>make_food\<close> computes it on its generator's draws
    (\<open>make_food_food_of_draws\<close>), and it accepts every free cell in equally many draw sequences
    (\<open>food_of_draws_uniform\<close>), the uniformity section 4.3 of the spec asks for.
  \<^item> \<open>Game\<close>: the record \<open>game\<close> (the non-widget attributes of \<open>SnakeGame\<close>),
    \<open>move\<close> (lines 70--99, with \<open>schedule_next\<close> and \<open>sleeptime\<close> for lines 96--99),
    \<open>on_key\<close> (lines 58--68) and \<open>snake_game_init\<close> (lines 19--47). A handler takes the
    generator and its state and returns an \<open>outcome\<close> of the new game, the new
    generator state and the delay of the timer it armed. The invariants are
    \<open>snake_inv\<close> (positive board, at least two cells, no repeated cell while running and
    exactly one, the head, after the fatal move, food on the board and off the snake)
    and \<open>steer_inv\<close> (the two direction fields agree and the head is one step from the
    neck). Every handler keeps them; the theorems give each branch of \<open>move\<close> (growth,
    collision, when it fails to return, the timer and its delay), the arbitration of
    \<open>on_key\<close> and why it never bites the neck, the exceptions of each handler, what
    the constructor builds, and when its initial body lies on the board.
  \<^item> \<open>Host\<close>: \<open>main\<close> (lines 113--121) and the Tk main loop. The host state
    \<open>tk_host\<close> is the game, the generator state and the list of armed timers;
    \<open>host_step\<close> runs one callback (a bound key calls \<open>on_key\<close>, a due timer is removed
    and calls \<open>move(True)\<close>), \<open>host_init\<close> runs the constructor, and \<open>reachable\<close> is
    the inductive set of states the loop can reach for any order of events.
    \<open>host_inv\<close> (the engine invariants and one armed timer while running) holds in
    every reachable state, by rule induction; \<open>host_run\<close> runs an explicit list of
    events.
  \<^item> \<open>Render\<close>: \<open>refresh\<close> (lines 101--110) as a function from the game to the status
    text and the colour of every rectangle; on an invariant state the picture colours
    each board cell once, one cell red (the food) and black exactly the body cells on
    the board; the status text reads back as the score. \<open>item_ids\<close>, \<open>rect_coords\<close>
    and \<open>canvas_size\<close> model the rectangles \<open>__init__\<close> creates (lines 32--44); they
    tile the canvas, one rectangle per pixel. \<open>move_texts\<close> and \<open>game_over_text\<close> are
    the \<open>Game Over :(\<close> overlay \<open>move\<close> draws (lines 84--87): exactly on the fatal
    move, anchored on the canvas.
  \<^item> \<open>Engine_Spec\<close>: the specification's engine (section 4.4 of \<^verbatim>\<open>spec.md\<close>,
    modelled from the spec, not from code): \<open>spec_advance\<close>, \<open>spec_set_direction\<close> and
    \<open>spec_new\<close> as inductive relations with the food respawn left open to any free
    cell, and \<open>spec_reachable\<close>. \<open>abs_game\<close> maps the code's \<open>game\<close> to the
    specification's state; \<open>move\<close>, \<open>on_key\<close> and the constructor refine
    \<open>advance()\<close>, \<open>setDirection\<close> and \<open>new\<close> followed by one \<open>advance()\<close>.
  \<^item> This theory: the properties of the whole program over the reachable states of the
    event loop (food, body, timers, directions, a frozen game after game over, no
    exception, the timer chain always able to fire) and the refinement of the specification's engine by the whole loop
    (\<open>reachable_refines\<close>, by rule induction with \<open>host_step_spec\<close> for one callback),
    with witnesses run on \<open>main\<close> with the generator \<open>lcg\<close>.

  \<^bold>\<open>Choices of the model.\<close>
  \<^item> Python ints are \<open>int\<close>; \<open>%\<close> and \<open>//\<close> are Isabelle's \<open>mod\<close> and \<open>div\<close> on
    \<open>int\<close>, which round the same way (towards minus infinity).
  \<^item> The deque is a list from tail to head: \<open>append\<close> is \<open>@ [x]\<close>, \<open>popleft\<close> is
    \<open>tl\<close> (on a non-empty list, as in every call), \<open>[-1]\<close> is \<open>py_last\<close>.
  \<^item> \<open>int(random.random() * 1000 / len(body))\<close> is computed exactly as
    \<open>(m * 1000) div (2^53 * len)\<close>; the floating-point rounding of the two operations is
    not modelled. The bound \<open>delay * len < 1000\<close> is the exact-arithmetic one.
  \<^item> An exception ends the handler with \<open>Inl\<close>; the state the handler had mutated
    before raising is not kept (in the reachable states no handler raises).
  \<^item> Not modelled: the Tk widgets themselves (\<open>Frame\<close>, \<open>Canvas\<close>, \<open>Label\<close>, packing,
    fonts and text colours: they hold no game state; what the code draws is modelled as
    the picture \<open>refresh\<close> paints, the rectangles of \<open>item_ids\<close> and the overlay of
    \<open>move_texts\<close>), the import lines, and the \<open>random\<close> module (an interface with a
    range assumption).

  \<^bold>\<open>Bounds and fuel.\<close> No fuel is used: the one loop that may not end,
  \<open>make_food\<close>, is a \<^theory_text>\<open>partial_function (option)\<close> whose \<open>None\<close> is
  non-termination, and the theorems say exactly when it returns. The witnesses run on a
  15 by 10 board (the size \<open>main\<close> uses) and on small boards, with \<open>lcg\<close>.
\<close>

section \<open>Properties of the whole program\<close>

text \<open>
  Reachable states of \<open>main\<close>'s event loop, for every board and every generator that
  draws in range: the engine invariants hold between any two callbacks.
\<close>

lemma host_step_over:
  assumes "game_over (hgame H)"
  shows "\<exists>H'. host_step R ev H = Some (Inr H') \<and> hgame H' = hgame H \<and> hrng H' = hrng H \<and>
              length (timers H') \<le> length (timers H)"
  using assms by (cases ev) (auto simp: host_apply_def armed_def remove_timer_def)

text \<open>
  C1. In every reachable state the food lies on the board and
  off the snake (the spec's food invariant, which the code keeps even through the fatal
  move).
\<close>

theorem reachable_food_off_body:
  assumes "rng_ok R" "reachable R H"
  shows "food (hgame H) \<notin> set (snake_body (hgame H)) \<and>
         in_grid (width (hgame H)) (height (hgame H)) (food (hgame H))"
  using reachable_host_inv [OF assms] by (simp add: host_inv_def snake_inv_def)

text \<open>
  C2. In every reachable state the body has no repeated cell
  while the game runs, and once it is over exactly its last cell, the head, repeats an
  earlier one.
\<close>

theorem reachable_body_distinct:
  assumes "rng_ok R" "reachable R H"
  shows "(\<not> game_over (hgame H) \<longrightarrow> distinct (snake_body (hgame H))) \<and>
         (game_over (hgame H) \<longrightarrow> distinct (butlast (snake_body (hgame H))) \<and>
            last (snake_body (hgame H)) \<in> set (butlast (snake_body (hgame H))))"
  using reachable_host_inv [OF assms] by (simp add: host_inv_def snake_inv_def body_ok_def)

text \<open>
  C6. One timer chain: while the game runs exactly one
  \<open>move(True)\<close> timer is armed, and never more than one, whatever keys are pressed.
\<close>

theorem reachable_one_timer_chain:
  assumes "rng_ok R" "reachable R H"
  shows "length (timers H) \<le> 1 \<and> (\<not> game_over (hgame H) \<longrightarrow> length (timers H) = 1)"
  using reachable_host_inv [OF assms] by (simp add: host_inv_def)

text \<open>
  C19. Between callbacks \<open>previous_direction\<close> and
  \<open>next_direction\<close> are equal and the head is one step of that direction from the neck:
  every accepted key moves at once, so no key press is ever left pending.
\<close>

theorem reachable_directions_agree:
  assumes "rng_ok R" "reachable R H"
  shows "previous_direction (hgame H) = next_direction (hgame H) \<and>
         last (snake_body (hgame H)) =
           wrap (width (hgame H)) (height (hgame H)) (last (butlast (snake_body (hgame H))))
             (previous_direction (hgame H))"
  using reachable_host_inv [OF assms] by (simp add: host_inv_def steer_inv_def)

text \<open>
  C14. After game over every sequence of events returns, leaves the game
  and the generator untouched, and never arms a timer again.
\<close>

theorem game_over_frozen:
  "game_over (hgame H) \<Longrightarrow>
   \<exists>H'. host_run R evs H = Some (Inr H') \<and> hgame H' = hgame H \<and> hrng H' = hrng H \<and>
        length (timers H') \<le> length (timers H)"
proof (induction evs arbitrary: H)
  case (Cons ev evs)
  from host_step_over [OF Cons.prems, of R ev] obtain H1 where
    s1: "host_step R ev H = Some (Inr H1)" "hgame H1 = hgame H" "hrng H1 = hrng H"
        "length (timers H1) \<le> length (timers H)" by blast
  with Cons.prems Cons.IH [of H1] show ?case by fastforce
qed simp

text \<open>
  C15. No callback of the main loop ever raises in a reachable
  state: the bound keys are exactly the keys of \<open>binding2direction\<close>, so \<open>on_key\<close>
  finds every key it is called for, and \<open>move\<close> never divides by zero or reads an empty
  deque.
\<close>

theorem reachable_no_exception:
  assumes "rng_ok R" "reachable R H"
  shows "host_step R ev H \<noteq> Some (Inl e)"
  using host_step_no_error [OF reachable_host_inv [OF assms]] .

text \<open>
  One callback of the loop, seen through \<open>abs_game\<close>: a bound key is the
  specification's \<open>setDirection\<close> with its direction, a due timer is \<open>advance()\<close>, and an
  unbound key or a timer that is not armed changes nothing. The board never changes.
\<close>

lemma host_step_spec:
  assumes "rng_ok R" "host_inv H" "host_step R ev H = Some (Inr H')"
  shows "width (hgame H') = width (hgame H) \<and> height (hgame H') = height (hgame H) \<and>
    (abs_game (hgame H') = abs_game (hgame H) \<or>
     spec_advance (width (hgame H)) (height (hgame H)) (abs_game (hgame H)) (abs_game (hgame H')) \<or>
     (\<exists>d. dir_ok d \<and> spec_set_direction (width (hgame H)) (height (hgame H)) d
            (abs_game (hgame H)) (abs_game (hgame H'))))"
proof -
  from assms(2) have inv: "snake_inv (hgame H)" by (simp add: host_inv_def)
  show ?thesis
  proof (cases ev)
    case (KeyPress k)
    show ?thesis
    proof (cases "binding2direction k")
      case None
      with assms(3) KeyPress show ?thesis by (auto simp: bound_keysym_binding)
    next
      case (Some d)
      with assms(3) KeyPress obtain g s t where
        ok: "on_key R k (hgame H) (hrng H) = Some (Inr (g, s, t))" and g: "hgame H' = g"
        by (auto simp: bound_keysym_binding host_apply_Inr)
      from on_key_set_direction [OF assms(1) inv Some ok] binding2direction_dir_ok [OF Some] g
      show ?thesis by blast
    qed
  next
    case (TimerFires i)
    show ?thesis
    proof (cases "i < length (timers H)")
      case True
      with assms(3) TimerFires obtain g s t where
        ok: "move R True (hgame H) (hrng H) = Some (Inr (g, s, t))" and g: "hgame H' = g"
        by (auto simp: host_apply_Inr)
      from move_advance [OF assms(1) inv ok] g show ?thesis by blast
    next
      case False
      with assms(3) TimerFires show ?thesis by auto
    qed
  qed
qed

text \<open>
  C7. Refinement of the specification's engine by the whole program:
  the game of every state the Tk main loop can reach, for any board and any generator
  drawing in range, is a state the specification's engine reaches on that board from
  \<open>new(width, height)\<close> by \<open>advance()\<close> and \<open>setDirection\<close> calls.
\<close>

theorem reachable_refines:
  assumes "rng_ok R" "reachable R H"
  shows "spec_reachable (width (hgame H)) (height (hgame H)) (abs_game (hgame H))"
  using assms(2)
proof (induction rule: reachable.induct)
  case (start w h sc s H)
  then obtain g s' t where init: "snake_game_init R w h sc s = Some (Inr (g, s', t))"
    and g: "hgame H = g" by (auto simp: host_init_def host_apply_Inr)
  from snake_game_init_refines [OF assms(1) init] g show ?case
    by (auto intro: spec_reachable.new spec_reachable.advance)
next
  case (step H ev H')
  from host_step_spec [OF assms(1) reachable_host_inv [OF assms(1) step.hyps(1)] step.hyps(2)]
    step.IH show ?case
    by (auto intro: spec_reachable.advance spec_reachable.set_direction)
qed


text \<open>
  C16. The game keeps ticking: in every reachable running state
  whose next head is not the food, the armed timer fires, its \<open>move(True)\<close> returns
  without an exception, and the loop is in a reachable state again with one timer armed,
  unless that move ended the game.
\<close>

theorem reachable_timer_progress:
  assumes "rng_ok R" "reachable R H" "\<not> game_over (hgame H)"
    and "next_head (hgame H) \<noteq> food (hgame H)"
  shows "\<exists>H'. host_step R (TimerFires 0) H = Some (Inr H') \<and> reachable R H' \<and>
              (\<not> game_over (hgame H') \<longrightarrow> length (timers H') = 1)"
proof -
  from reachable_host_inv [OF assms(1,2)] assms(3) have inv: "host_inv H"
    and armed: "0 < length (timers H)" by (simp_all add: host_inv_def)
  from inv have "snake_inv (hgame H)" by (simp add: host_inv_def)
  from move_returns_no_eat [OF this assms(4)] armed
  have "host_step R (TimerFires 0) H \<noteq> None"
    by (auto simp: host_apply_def split: option.splits sum.splits prod.splits)
  moreover have "host_step R (TimerFires 0) H \<noteq> Some (Inl e)" for e
    by (rule host_step_no_error [OF inv])
  ultimately obtain H' where step: "host_step R (TimerFires 0) H = Some (Inr H')"
    by (auto split: sum.splits) (metis not_None_eq sum.exhaust)
  with host_step_inv [OF assms(1) inv step] reachable.step [OF assms(2) step] show ?thesis
    by (auto simp: host_inv_def)
qed



section \<open>Witnesses\<close>

lemma main_lcg: "main lcg (7::nat) = Some (Inr \<lparr>hgame = demo_game, hrng = 19570, timers = [12]\<rparr>)"
  by (simp add: main_def host_init_def host_apply_def armed_def snake_game_init_def init_body_def
      upt_rec make_food_unfold draw_pair_def lcg_def lcg_next_def move_def wrap_def Let_def
      schedule_next_def sleeptime_def demo_game_def)

lemma reachable_main_lcg: "reachable lcg \<lparr>hgame = demo_game, hrng = 19570::nat, timers = [12]\<rparr>"
  using main_lcg unfolding main_def by (rule reachable.start)

lemma reachable_one_row:
  "reachable lcg \<lparr>hgame = \<lparr>width = 15, height = 1, scale = 40,
       snake_body = [(0, 0), (1, 0), (2, 0), (3, 0), (4, 0), (4, 0)],
       previous_direction = (0, -1), next_direction = (0, -1), game_over = True, food = (7, 0)\<rparr>,
     hrng = 4085::nat, timers = []\<rparr>"
  by (rule reachable.start [of lcg 15 1 40 7]) (simp add: host_init_def demo_init_one_row host_apply_def armed_def)

theorem reachable_food_off_body_witness:
  "food demo_game \<notin> set (snake_body demo_game) \<and> in_grid 15 10 (food demo_game)"
  using reachable_food_off_body [OF rng_ok_lcg reachable_main_lcg] by (simp add: demo_game_def)

theorem reachable_body_distinct_witness:
  "last [(0::int, 0::int), (1, 0), (2, 0), (3, 0), (4, 0), (4, 0)] \<in>
     set (butlast [(0::int, 0::int), (1, 0), (2, 0), (3, 0), (4, 0), (4, 0)])"
  using reachable_body_distinct [OF rng_ok_lcg reachable_one_row] by simp

theorem reachable_one_timer_chain_witness: "length [12::nat] = 1"
  using reachable_one_timer_chain [OF rng_ok_lcg reachable_main_lcg] by (simp add: demo_game_def)

theorem reachable_directions_agree_witness:
  "previous_direction demo_game = next_direction demo_game"
  using reachable_directions_agree [OF rng_ok_lcg reachable_main_lcg] by simp

theorem game_over_frozen_witness:
  "\<exists>H'. host_run lcg [KeyPress ''Up'', TimerFires 0]
          \<lparr>hgame = demo_game\<lparr>game_over := True\<rparr>, hrng = 19570::nat, timers = [12]\<rparr> = Some (Inr H') \<and>
        hgame H' = demo_game\<lparr>game_over := True\<rparr>"
  using game_over_frozen [of "\<lparr>hgame = demo_game\<lparr>game_over := True\<rparr>, hrng = 19570::nat, timers = [12]\<rparr>"
      lcg "[KeyPress ''Up'', TimerFires 0]"] by auto

theorem reachable_no_exception_witness:
  "host_step lcg (KeyPress ''Up'') \<lparr>hgame = demo_game, hrng = 19570::nat, timers = [12]\<rparr> \<noteq>
   Some (Inl KeyError)"
  using reachable_no_exception [OF rng_ok_lcg reachable_main_lcg] .

theorem reachable_refines_witness:
  "spec_reachable 15 10 (abs_game demo_game)"
  using reachable_refines [OF rng_ok_lcg reachable_main_lcg] by (simp add: demo_game_def)

theorem reachable_timer_progress_witness:
  "\<exists>H'. host_step lcg (TimerFires 0) \<lparr>hgame = demo_game, hrng = 19570::nat, timers = [12]\<rparr> =
     Some (Inr H') \<and> reachable lcg H'"
proof -
  have "\<not> game_over demo_game" "next_head demo_game \<noteq> food demo_game"
    by (simp_all add: demo_game_def next_head_def wrap_def)
  from reachable_timer_progress [OF rng_ok_lcg reachable_main_lcg] this show ?thesis by auto
qed

end
